theory Spec2Isabelle
  imports Complex_Main "HOL-Library.Word"
begin

section \<open>Machine types and faults\<close>

text \<open>
  The polling server is C++ on Qt, built for a 64-bit Linux target: \<open>std::uint8_t\<close>,
  \<open>std::uint16_t\<close>, \<open>std::uint32_t\<close> are words of that width, and \<open>unsigned long\<close> and
  \<open>unsigned long long\<close> are both 64-bit words. Arithmetic on words wraps around, as
  unsigned arithmetic does in C++.

  Undefined behaviour of the source (dividing by zero, dereferencing an end iterator or a
  null pointer, converting a floating-point value to an integer type that cannot hold it)
  is a value of type \<open>fault\<close>, returned on the left of a sum.
\<close>

type_synonym u8 = "8 word"
type_synonym u16 = "16 word"
type_synonym u32 = "32 word"
type_synonym u64 = "64 word"
type_synonym bytes = "u8 list"

datatype fault = DivideByZero | DerefEnd | NullPointer | BadPointer | BadConversion

section \<open>HostSchemeTimer: restarting the timing cycle\<close>

text \<open>
  \<open>HostSchemeTimer\<close> (host_scheme_timer.h/.cpp). The fields are the ones read or written by
  \<open>restartTimingCycle\<close> and \<open>scheduleNextHostScheme\<close>. \<open>hostSchemesByTimeOrder\<close> is a
  \<open>QMap\<close> from the bit-reversed host/scheme id to the host/scheme pointer, held here as the
  list of its entries in key order; \<open>hostSchemeIterator\<close> is a position in that list, the
  length of the list being \<open>end()\<close>. \<open>serviceTimer\<close> is \<open>None\<close> when the one-shot timer is
  idle and \<open>Some d\<close> when it was started with a delay of \<open>d\<close> milliseconds.
  The type \<open>'d\<close> stands for \<open>double\<close>.
\<close>

record 'd HostSchemeTimer =
  currentPeriodMilliseconds :: u64
  regionTimeOffsetMilliseconds :: u64
  pollingCycleStartTime :: u64
  nextTimingMarkReset :: u64
  numberMissedTimingWindows :: u64
  sumMillisecondsMissedTimingMarks :: u64
  hostSchemesByTimeOrder :: "(u32 \<times> nat) list"
  hostSchemeIterator :: nat
  serviceTimer :: "u64 option"
  currentLoadingData :: "(nat \<times> u64 \<times> 'd) option"

definition missedTimingMarkResetInterval :: u64 where
  "missedTimingMarkResetInterval = 2 * 1000 * 3600"

text \<open>
  \<open>scheduleNextHostScheme\<close>. Its two floating-point expressions are parameters:
  \<open>timeOffsetOf T key\<close> is \<open>static_cast<unsigned long>(T * (key / 4294967296.0) + 0.5)\<close> and
  \<open>averageOf sum n\<close> is \<open>sum / (1000.0 * n)\<close>, or zero when \<open>n\<close> is zero. \<open>currentTime\<close> is
  the clock reading taken inside the function.
\<close>

definition scheduleNextHostScheme ::
  "(u64 \<Rightarrow> u32 \<Rightarrow> u64) \<Rightarrow> (u64 \<Rightarrow> u64 \<Rightarrow> 'd) \<Rightarrow> u64 \<Rightarrow> 'd HostSchemeTimer
     \<Rightarrow> fault + 'd HostSchemeTimer" where
  "scheduleNextHostScheme timeOffsetOf averageOf currentTime t =
     (if hostSchemeIterator t \<ge> length (hostSchemesByTimeOrder t) then Inl DerefEnd
      else
        let key = fst (hostSchemesByTimeOrder t ! hostSchemeIterator t);
            timeOffset = timeOffsetOf (currentPeriodMilliseconds t) key;
            nextEvent = pollingCycleStartTime t + timeOffset;
            t1 = (if nextEvent > currentTime
                  then t\<lparr>serviceTimer := Some (nextEvent - currentTime)\<rparr>
                  else
                    let missedBy = currentTime - nextEvent;
                        tm = (if missedBy > 1
                              then t\<lparr>numberMissedTimingWindows := numberMissedTimingWindows t + 1,
                                     sumMillisecondsMissedTimingMarks :=
                                       sumMillisecondsMissedTimingMarks t + missedBy\<rparr>
                              else t)
                    in tm\<lparr>serviceTimer := Some 0\<rparr>)
        in Inr (if currentTime > nextTimingMarkReset t1
                then t1\<lparr>currentLoadingData :=
                          Some (length (hostSchemesByTimeOrder t1),
                                numberMissedTimingWindows t1,
                                averageOf (sumMillisecondsMissedTimingMarks t1)
                                          (numberMissedTimingWindows t1)),
                        numberMissedTimingWindows := 0,
                        sumMillisecondsMissedTimingMarks := 0,
                        nextTimingMarkReset :=
                          nextTimingMarkReset t1 + missedTimingMarkResetInterval\<rparr>
                else t1))"

text \<open>
  \<open>restartTimingCycle\<close>: the cursor goes back to \<open>begin()\<close>, the cycle index is the
  integer quotient \<open>currentTime / currentPeriodMilliseconds\<close> (a division by zero is a
  fault), and the start of the cycle is stored before the first host/scheme is scheduled.
  \<open>currentTime\<close> is the clock reading of this function, \<open>laterTime\<close> the one taken by
  \<open>scheduleNextHostScheme\<close>.
\<close>

definition restartTimingCycle ::
  "(u64 \<Rightarrow> u32 \<Rightarrow> u64) \<Rightarrow> (u64 \<Rightarrow> u64 \<Rightarrow> 'd) \<Rightarrow> u64 \<Rightarrow> u64 \<Rightarrow> 'd HostSchemeTimer
     \<Rightarrow> fault + 'd HostSchemeTimer" where
  "restartTimingCycle timeOffsetOf averageOf currentTime laterTime t =
     (let t0 = t\<lparr>hostSchemeIterator := 0\<rparr>
      in if currentPeriodMilliseconds t0 = 0 then Inl DivideByZero
         else
           let cycleIndex = currentTime div currentPeriodMilliseconds t0
           in scheduleNextHostScheme timeOffsetOf averageOf laterTime
                (t0\<lparr>pollingCycleStartTime :=
                       currentPeriodMilliseconds t0 * (cycleIndex + 1)
                       + regionTimeOffsetMilliseconds t0\<rparr>))"

text \<open>
  The formula of the specification, in its own words:
  \<open>cycle_start = T * (ceil(now_ms / T) + 1) + region_offset_ms\<close>, on natural numbers.
\<close>

definition spec_cycle_start :: "nat \<Rightarrow> nat \<Rightarrow> nat \<Rightarrow> nat" where
  "spec_cycle_start T now_ms region_offset_ms =
     T * ((now_ms + T - 1) div T + 1) + region_offset_ms"

text \<open>A wheel of period 20 seconds with one host/scheme, in a single region.\<close>

definition wheel20 :: "unit HostSchemeTimer" where
  "wheel20 = \<lparr>currentPeriodMilliseconds = 20000, regionTimeOffsetMilliseconds = 0,
              pollingCycleStartTime = 0, nextTimingMarkReset = 0,
              numberMissedTimingWindows = 0, sumMillisecondsMissedTimingMarks = 0,
              hostSchemesByTimeOrder = [(0, 0)], hostSchemeIterator = 0,
              serviceTimer = None, currentLoadingData = None\<rparr>"

section \<open>DataAggregator: latency batches\<close>

text \<open>
  \<open>DataAggregator::LatencyEntry\<close> (data_aggregator.h). The constructor takes the Unix
  timestamp as \<open>unsigned long long\<close> and stores \<open>unixTimestamp - startOfZoranEpoch\<close> in a
  \<open>std::uint32_t\<close>: the difference is taken on 64 bits and truncated to 32.
\<close>

definition startOfZoranEpoch :: u64 where
  "startOfZoranEpoch = 1609484400"

record LatencyEntry =
  entryMonitorId :: u32
  entryTimestamp :: u32
  entryLatencyMicroseconds :: u32

definition newLatencyEntry :: "u32 \<Rightarrow> u64 \<Rightarrow> u32 \<Rightarrow> LatencyEntry" where
  "newLatencyEntry monitorId unixTimestamp latencyMicroseconds =
     \<lparr>entryMonitorId = monitorId,
      entryTimestamp = ucast (unixTimestamp - startOfZoranEpoch),
      entryLatencyMicroseconds = latencyMicroseconds\<rparr>"

text \<open>
  Memory. A buffer is a list of bytes; \<open>store off src buf\<close> is \<open>memcpy(buf + off, src, n)\<close>
  for \<open>n = length src\<close>. The target is little-endian, so a \<open>std::uint16_t\<close> or
  \<open>std::uint32_t\<close> field is stored low byte first.
\<close>

definition store :: "nat \<Rightarrow> bytes \<Rightarrow> bytes \<Rightarrow> bytes" where
  "store off src buf = take off buf @ src @ drop (off + length src) buf"

definition le16 :: "u16 \<Rightarrow> bytes" where
  "le16 w = [ucast w, ucast (drop_bit 8 w)]"

definition le32 :: "u32 \<Rightarrow> bytes" where
  "le32 w = [ucast w, ucast (drop_bit 8 w), ucast (drop_bit 16 w), ucast (drop_bit 24 w)]"

text \<open>
  The packed structures \<open>Header\<close> and \<open>Entry\<close>. With \<open>__attribute__((packed))\<close> each
  field starts where the previous one ends; the array \<open>spare\<close> is declared with
  \<open>64 - (2 + maximumIdentifierLength + 4 + 2 + 2 + 1)\<close> elements.
\<close>

definition maximumIdentifierLength :: nat where
  "maximumIdentifierLength = 48"

definition offset_version :: nat where "offset_version = 0"
definition offset_identifier :: nat where "offset_identifier = offset_version + 2"
definition offset_monitorsPerSecond :: nat where
  "offset_monitorsPerSecond = offset_identifier + maximumIdentifierLength"
definition offset_cpuLoading :: nat where "offset_cpuLoading = offset_monitorsPerSecond + 4"
definition offset_memoryLoading :: nat where "offset_memoryLoading = offset_cpuLoading + 2"
definition offset_serverStatusCode :: nat where
  "offset_serverStatusCode = offset_memoryLoading + 2"
definition offset_spare :: nat where "offset_spare = offset_serverStatusCode + 1"
definition length_spare :: nat where
  "length_spare = 64 - (2 + maximumIdentifierLength + 4 + 2 + 2 + 1)"
definition sizeof_Header :: nat where "sizeof_Header = offset_spare + length_spare"
definition sizeof_Entry :: nat where "sizeof_Entry = 4 + 4 + 4"

text \<open>
  The measurements that \<open>sendReport\<close> reads from the rest of the process each time it
  builds a message: \<open>ServiceThreadTracker::monitorsPerSecond()\<close>, \<open>cpuUtilization()\<close> and
  \<open>memoryUtilization()\<close> return a \<open>float\<close>, and \<open>ServiceThreadTracker::status()\<close> a
  \<open>Status\<close>, an enumeration over \<open>std::uint8_t\<close> with the values 0 to 3. A finite \<open>float\<close>
  is a real number; its products with \<open>256.0\<close>, \<open>4096.0\<close> and \<open>65536.0\<close> are taken in
  \<open>double\<close>, where a \<open>float\<close> times a power of two is exact.
\<close>

datatype ServerStatus = ALL_UNKNOWN | ACTIVE | INACTIVE | DEFUNCT

record Measurements =
  trackerMonitorsPerSecond :: real
  cpuUtilization :: real
  memoryUtilization :: real
  trackerStatus :: ServerStatus

text \<open>
  The integers that \<open>sendReport\<close> stores into the header fields \<open>monitorsPerSecond\<close>,
  \<open>cpuLoading\<close>, \<open>memoryLoading\<close> and \<open>serverStatusCode\<close>.
\<close>

record Readings =
  monitorsPerSecond :: u32
  cpuLoading :: u16
  memoryLoading :: u16
  serverStatusCode :: u8

text \<open>
  \<open>static_cast<std::uint32_t>(x)\<close> and \<open>static_cast<unsigned>(x)\<close> of a \<open>double\<close>: the
  value is truncated toward zero, and the conversion is undefined when the truncated
  value is not one of the 32-bit unsigned integers. The cast of the \<open>Status\<close> to
  \<open>std::uint8_t\<close> gives the value of the enumerator.
\<close>

definition toUnsigned32 :: "real \<Rightarrow> fault + nat" where
  "toUnsigned32 x =
     (let truncated = (if 0 \<le> x then \<lfloor>x\<rfloor> else \<lceil>x\<rceil>)
      in if 0 \<le> truncated \<and> truncated < 2 ^ 32
         then Inr (nat truncated)
         else Inl BadConversion)"

fun statusCode :: "ServerStatus \<Rightarrow> u8" where
  "statusCode ALL_UNKNOWN = 0"
| "statusCode ACTIVE = 1"
| "statusCode INACTIVE = 2"
| "statusCode DEFUNCT = 3"

text \<open>
  The four assignments to the header in \<open>sendReport\<close>:
  \<open>static_cast<std::uint32_t>(monitorsPerSecond() * 256.0)\<close>,
  \<open>std::min(65535U, static_cast<unsigned>(cpuUtilization() * 4096.0))\<close>,
  \<open>std::min(65535U, static_cast<unsigned>(memoryUtilization() * 65536.0))\<close> and
  \<open>static_cast<std::uint8_t>(status())\<close>. The functions below that send a message take
  the record \<open>Readings\<close> that these assignments give.
\<close>

definition headerReadings :: "Measurements \<Rightarrow> fault + Readings" where
  "headerReadings m =
     (case toUnsigned32 (trackerMonitorsPerSecond m * 256) of
        Inl f \<Rightarrow> Inl f
      | Inr rate \<Rightarrow>
          (case toUnsigned32 (cpuUtilization m * 4096) of
             Inl f \<Rightarrow> Inl f
           | Inr cpu \<Rightarrow>
               (case toUnsigned32 (memoryUtilization m * 65536) of
                  Inl f \<Rightarrow> Inl f
                | Inr memory \<Rightarrow>
                    Inr \<lparr>monitorsPerSecond = of_nat rate,
                         cpuLoading = of_nat (min 65535 cpu),
                         memoryLoading = of_nat (min 65535 memory),
                         serverStatusCode = statusCode (trackerStatus m)\<rparr>)))"

text \<open>
  The aggregator. \<open>headerTemplate\<close> is the 64-byte template; \<open>inFlightLatencyEntryList\<close> is
  \<open>None\<close> for the null pointer; a timer is \<open>None\<close> when inactive and \<open>Some d\<close> when started
  with \<open>d\<close> milliseconds; \<open>posted\<close> records the bodies handed to
  \<open>post(latencyRecordPath, message)\<close>, oldest first. The cross-thread signals
  \<open>triggerReporting\<close> and \<open>triggerRetry\<close> are connected to \<open>QTimer::start(int)\<close> of the two
  timers and are modelled as that call.
\<close>

record DataAggregator =
  headerTemplate :: bytes
  latencyEntryList :: "LatencyEntry list"
  inFlightLatencyEntryList :: "LatencyEntry list option"
  reportTimer :: "nat option"
  retryTimer :: "nat option"
  posted :: "bytes list"

definition maximumReportDelayMilliseconds :: nat where
  "maximumReportDelayMilliseconds = 60 * 1000"

definition maximumNumberPendingEntries :: nat where
  "maximumNumberPendingEntries = 1000"

definition retryDelaySeconds :: nat where
  "retryDelaySeconds = 60"

definition configure :: DataAggregator where
  "configure =
     \<lparr>headerTemplate = store offset_version (le16 0) (replicate sizeof_Header 0),
      latencyEntryList = [],
      inFlightLatencyEntryList = None,
      reportTimer = None,
      retryTimer = None,
      posted = []\<rparr>"

text \<open>\<open>setServerIdentifier\<close>; \<open>rawData\<close> is the UTF-8 encoding of the new identifier.\<close>

definition setServerIdentifier :: "bytes \<Rightarrow> DataAggregator \<Rightarrow> DataAggregator" where
  "setServerIdentifier rawData s =
     (let rawDataLength = length rawData;
          bytesToCopy = (if rawDataLength > maximumIdentifierLength
                         then maximumIdentifierLength else rawDataLength);
          h1 = store offset_identifier (take bytesToCopy rawData) (headerTemplate s);
          h2 = (if bytesToCopy < maximumIdentifierLength
                then store (offset_identifier + bytesToCopy)
                       (replicate (maximumIdentifierLength - bytesToCopy) 0) h1
                else h1)
      in s\<lparr>headerTemplate := h2\<rparr>)"

definition triggerReporting :: "nat \<Rightarrow> DataAggregator \<Rightarrow> DataAggregator" where
  "triggerReporting delay s = s\<lparr>reportTimer := Some delay\<rparr>"

definition triggerRetry :: "nat \<Rightarrow> DataAggregator \<Rightarrow> DataAggregator" where
  "triggerRetry delay s = s\<lparr>retryTimer := Some delay\<rparr>"

definition recordLatency :: "u32 \<Rightarrow> u64 \<Rightarrow> u32 \<Rightarrow> DataAggregator \<Rightarrow> DataAggregator" where
  "recordLatency monitorId timestamp latency s =
     (let s1 = s\<lparr>latencyEntryList :=
                   latencyEntryList s @ [newLatencyEntry monitorId timestamp latency]\<rparr>
      in if inFlightLatencyEntryList s1 = None
         then (if length (latencyEntryList s1) \<ge> maximumNumberPendingEntries
               then triggerReporting 0 s1
               else if reportTimer s1 = None
               then triggerReporting maximumReportDelayMilliseconds s1
               else s1)
         else s1)"

text \<open>
  The private \<open>sendReport(latencyEntryList)\<close>: a zeroed message of
  \<open>sizeof(Header) + n * sizeof(Entry)\<close> bytes, the template copied over its head, four
  header fields stored, then the entries written one after the other.
\<close>

fun writeEntries :: "nat \<Rightarrow> LatencyEntry list \<Rightarrow> bytes \<Rightarrow> bytes" where
  "writeEntries off [] message = message"
| "writeEntries off (e # es) message =
     writeEntries (off + sizeof_Entry) es
       (store (off + 8) (le32 (entryLatencyMicroseconds e))
         (store (off + 4) (le32 (entryTimestamp e))
           (store off (le32 (entryMonitorId e)) message)))"

definition buildMessage :: "bytes \<Rightarrow> Readings \<Rightarrow> LatencyEntry list \<Rightarrow> bytes" where
  "buildMessage template r entries =
     (let numberLatencyEntries = length entries;
          m0 = replicate (sizeof_Header + numberLatencyEntries * sizeof_Entry) 0;
          m1 = store 0 (take sizeof_Header template) m0;
          m2 = store offset_monitorsPerSecond (le32 (monitorsPerSecond r)) m1;
          m3 = store offset_cpuLoading (le16 (cpuLoading r)) m2;
          m4 = store offset_memoryLoading (le16 (memoryLoading r)) m3;
          m5 = store offset_serverStatusCode [serverStatusCode r] m4
      in writeEntries sizeof_Header entries m5)"

definition sendReport :: "Readings \<Rightarrow> LatencyEntry list \<Rightarrow> DataAggregator \<Rightarrow> DataAggregator" where
  "sendReport r entries s =
     s\<lparr>posted := posted s @ [buildMessage (headerTemplate s) r entries]\<rparr>"

text \<open>
  \<open>startReportingLatencyData\<close> is the slot of \<open>reportTimer\<close>, \<open>startRetry\<close> the slot of
  \<open>retryTimer\<close>. Both timers are single-shot: when one fires it is inactive again and
  its slot runs.
\<close>

definition startReportingLatencyData :: "Readings \<Rightarrow> DataAggregator \<Rightarrow> DataAggregator" where
  "startReportingLatencyData r s =
     (if inFlightLatencyEntryList s = None
      then sendReport r (latencyEntryList s)
             (s\<lparr>inFlightLatencyEntryList := Some (latencyEntryList s),
                latencyEntryList := []\<rparr>)
      else s)"

definition startRetry :: "Readings \<Rightarrow> DataAggregator \<Rightarrow> DataAggregator" where
  "startRetry r s =
     (case inFlightLatencyEntryList s of
        Some entries \<Rightarrow> sendReport r entries s
      | None \<Rightarrow> s)"

definition reportTimerFires :: "Readings \<Rightarrow> DataAggregator \<Rightarrow> DataAggregator" where
  "reportTimerFires r s =
     (case reportTimer s of
        None \<Rightarrow> s
      | Some delay \<Rightarrow> startReportingLatencyData r (s\<lparr>reportTimer := None\<rparr>))"

definition retryTimerFires :: "Readings \<Rightarrow> DataAggregator \<Rightarrow> DataAggregator" where
  "retryTimerFires r s =
     (case retryTimer s of
        None \<Rightarrow> s
      | Some delay \<Rightarrow> startRetry r (s\<lparr>retryTimer := None\<rparr>))"

text \<open>
  \<open>processRequestFailed\<close> logs and emits \<open>triggerRetry(1000 * retryDelaySeconds)\<close>.
  \<open>processResponse\<close> takes the decoded reply: \<open>statusOK\<close> holds when the content type is
  \<open>application/json\<close>, the body is a JSON object and its \<open>status\<close> is \<open>"OK"\<close>; every other
  reply goes to \<open>processRequestFailed\<close>. On success the code reads
  \<open>inFlightLatencyEntryList->size()\<close>, a fault when the pointer is null.
\<close>

definition processRequestFailed :: "DataAggregator \<Rightarrow> DataAggregator" where
  "processRequestFailed s = triggerRetry (1000 * retryDelaySeconds) s"

definition processResponse :: "bool \<Rightarrow> DataAggregator \<Rightarrow> fault + DataAggregator" where
  "processResponse statusOK s =
     (if statusOK
      then (case inFlightLatencyEntryList s of
              None \<Rightarrow> Inl NullPointer
            | Some entries \<Rightarrow>
                let s1 = s\<lparr>inFlightLatencyEntryList := None\<rparr>;
                    currentNumberEntries = length (latencyEntryList s1)
                in Inr (if currentNumberEntries \<ge> maximumNumberPendingEntries
                        then triggerReporting 0 s1
                        else if currentNumberEntries > 0
                        then triggerReporting maximumReportDelayMilliseconds s1
                        else s1))
      else Inr (processRequestFailed s))"

definition recordSamples :: "(u32 \<times> u64 \<times> u32) list \<Rightarrow> DataAggregator \<Rightarrow> DataAggregator" where
  "recordSamples samples s = fold (\<lambda>(i, t, l). recordLatency i t l) samples s"

text \<open>
  One round of a failing transmission: the request fails (\<open>processRequestFailed\<close> starts
  the retry timer); while the timer runs, samples keep arriving from the workers, and each
  time the configuration file changes \<open>PollingServer::configureServer\<close> (ps.cpp) calls
  \<open>setServerIdentifier\<close> with the identifier of the file; when the timer fires,
  \<open>startRetry\<close> sends again, with the readings of that moment. A round is the samples, the
  identifiers loaded during the wait (oldest first) and the readings.
\<close>

definition retryRound ::
  "(u32 \<times> u64 \<times> u32) list \<times> bytes list \<times> Readings \<Rightarrow> DataAggregator \<Rightarrow> DataAggregator" where
  "retryRound step s =
     (case step of (samples, identifiers, r) \<Rightarrow>
        retryTimerFires r
          (fold setServerIdentifier identifiers
             (recordSamples samples (processRequestFailed s))))"

text \<open>The twelve bytes of one \<open>Entry\<close>, as \<open>writeEntries\<close> stores them.\<close>

definition entryBytes :: "LatencyEntry \<Rightarrow> bytes" where
  "entryBytes e =
     le32 (entryMonitorId e) @ le32 (entryTimestamp e) @ le32 (entryLatencyMicroseconds e)"

text \<open>
  The layout of the request body in the words of the specification: a header of version,
  48 identifier bytes, the service rate in 24.8 fixed point, CPU loading, memory loading,
  status code and \<open>reserved[3]\<close>, then one 12-byte entry per sample, whose timestamp is the
  Unix time in seconds minus 1,609,484,400. An unsigned 24.8 fixed-point number is a 32-bit
  integer counting units of \<open>1/256\<close>. The number of reserved bytes is a parameter.
\<close>

definition fixed_24_8 :: "real \<Rightarrow> u32" where
  "fixed_24_8 x = word_of_int \<lfloor>x * 2 ^ 8\<rfloor>"

definition zoran :: "int \<Rightarrow> int" where
  "zoran unix_seconds = unix_seconds - 1609484400"

definition spec_entry :: "u32 \<Rightarrow> u32 \<Rightarrow> u32 \<Rightarrow> bytes" where
  "spec_entry monitor_id zoran_timestamp latency_microseconds =
     le32 monitor_id @ le32 zoran_timestamp @ le32 latency_microseconds"

definition spec_header :: "nat \<Rightarrow> bytes \<Rightarrow> real \<Rightarrow> u16 \<Rightarrow> u16 \<Rightarrow> u8 \<Rightarrow> bytes" where
  "spec_header reserved identifier monitors_per_second cpu_loading memory_loading
       server_status_code =
     le16 0 @ (take 48 identifier @ replicate (48 - length identifier) 0)
     @ le32 (fixed_24_8 monitors_per_second) @ le16 cpu_loading @ le16 memory_loading
     @ [server_status_code] @ replicate reserved 0"

definition spec_payload ::
  "nat \<Rightarrow> bytes \<Rightarrow> real \<Rightarrow> u16 \<Rightarrow> u16 \<Rightarrow> u8 \<Rightarrow> (u32 \<times> u64 \<times> u32) list \<Rightarrow> bytes" where
  "spec_payload reserved identifier monitors_per_second cpu_loading memory_loading
       server_status_code samples =
     spec_header reserved identifier monitors_per_second cpu_loading memory_loading
       server_status_code
     @ concat (map (\<lambda>(monitor_id, unix_seconds, latency).
                      spec_entry monitor_id (word_of_int (zoran (uint unix_seconds))) latency)
                 samples)"

text \<open>
  Concrete states for the examples: two sets of readings that differ in the CPU loading,
  and the aggregator after one sample was recorded and the report timer has fired, so that
  a batch is in flight and no timer is running.
\<close>

definition idle :: Readings where
  "idle = \<lparr>monitorsPerSecond = 0, cpuLoading = 0, memoryLoading = 0, serverStatusCode = 1\<rparr>"

definition busy :: Readings where
  "busy = \<lparr>monitorsPerSecond = 0, cpuLoading = 1, memoryLoading = 0, serverStatusCode = 1\<rparr>"

definition waiting :: DataAggregator where
  "waiting = reportTimerFires idle (recordLatency 1 1609484400 5 configure)"

section \<open>Monitor: one probe target\<close>

text \<open>
  \<open>Monitor\<close> (monitor.h/.cpp). \<open>EventType\<close> is declared in host_scheme.h; its member
  \<open>WORKING\<close> is written \<open>WORKING_EVENT\<close> here, the name \<open>WORKING\<close> being taken by
  \<open>MonitorStatus\<close>. A \<open>QByteArray\<close> is a list of bytes. A \<open>QString\<close> is modelled by the
  string of its UTF-8 bytes, so that \<open>toUtf8\<close> maps each character to its byte; decoding
  bytes that may not be valid UTF-8 (\<open>QString::fromUtf8\<close>) is a parameter of the functions
  that use it.
\<close>

datatype MonitorStatus = UNKNOWN | WORKING | FAILED

datatype Method = GET | HEAD | POST | PUT | DELETE | OPTIONS | PATCH

datatype ContentCheckMode =
  NO_CHECK | CONTENT_MATCH | ANY_KEYWORDS | ALL_KEYWORDS | SMART_CONTENT_MATCH

datatype ContentType = JSON | XML | TEXT

datatype EventType =
  INVALID | WORKING_EVENT | NO_RESPONSE | CONTENT_CHANGED | KEYWORDS | SSL_CERTIFICATE

definition toUtf8 :: "string \<Rightarrow> bytes" where
  "toUtf8 str = map (\<lambda>c. of_nat (of_char c)) str"

text \<open>
  The fields of a monitor. \<open>pendingReply\<close> is the pointer to the reply of the request in
  flight: \<open>None\<close> is the null pointer, \<open>Some h\<close> the address \<open>h\<close> of a \<open>QNetworkReply\<close>.
\<close>

record Monitor =
  currentMonitorId :: u32
  currentPath :: string
  currentMethod :: Method
  currentContentCheckMode :: ContentCheckMode
  currentKeywords :: "bytes list"
  currentContentType :: ContentType
  currentUserAgent :: bytes
  currentPostContent :: bytes
  currentMonitorStatus :: MonitorStatus
  pendingReply :: "nat option"
  lastHash :: bytes
  startTimestamp :: u64

definition newMonitor ::
  "u32 \<Rightarrow> string \<Rightarrow> Method \<Rightarrow> ContentCheckMode \<Rightarrow> bytes list \<Rightarrow> ContentType \<Rightarrow> string
     \<Rightarrow> bytes \<Rightarrow> Monitor" where
  "newMonitor monitorId path method contentCheckMode keywords contentType userAgent postContent =
     \<lparr>currentMonitorId = monitorId, currentPath = path, currentMethod = method,
      currentContentCheckMode = contentCheckMode, currentKeywords = keywords,
      currentContentType = contentType, currentUserAgent = toUtf8 userAgent,
      currentPostContent = postContent, currentMonitorStatus = UNKNOWN,
      pendingReply = None, lastHash = [], startTimestamp = 0\<rparr>"

text \<open>
  An event as handed to \<open>DataAggregator::reportEvent\<close>; the hash defaults to the empty
  byte array and the message to the empty string.
\<close>

record Event =
  eventMonitorId :: u32
  eventTimestamp :: u64
  eventType :: EventType
  eventMonitorStatus :: MonitorStatus
  eventHash :: bytes
  eventMessage :: string

subsection \<open>Starting and aborting a check\<close>

text \<open>
  The request handed to the network access manager: the URL path, the method, the raw
  default headers, the known headers set with \<open>setHeader\<close>, whether the transfer timeout
  was set, and the body of a POST, PUT or PATCH.
\<close>

record Request =
  requestPath :: string
  requestMethod :: Method
  rawHeaders :: "(bytes \<times> bytes) list"
  userAgentHeader :: bytes
  contentTypeHeader :: "bytes option"
  contentLengthHeader :: nat
  requestTransferTimeout :: "nat option"
  requestBody :: "bytes option"

definition transferTimeout :: nat where
  "transferTimeout = 60000"

definition defaultUserAgent :: bytes where
  "defaultUserAgent = toUtf8 ''InesonicBot''"

definition defaultUserAgentHeaderString :: bytes where
  "defaultUserAgentHeaderString = toUtf8 ''user-agent''"

text \<open>
  The loop over \<open>currentDefaultHeaders\<close> (a static \<open>QMap\<close>, here the list of its entries):
  the entry named \<open>user-agent\<close> replaces the user agent, every other entry becomes a raw
  header.
\<close>

fun mergeDefaultHeaders ::
  "(bytes \<times> bytes) list \<Rightarrow> bytes \<Rightarrow> (bytes \<times> bytes) list \<Rightarrow> bytes \<times> (bytes \<times> bytes) list" where
  "mergeDefaultHeaders [] userAgent raw = (userAgent, raw)"
| "mergeDefaultHeaders ((key, val) # rest) userAgent raw =
     (if key = defaultUserAgentHeaderString
      then mergeDefaultHeaders rest val raw
      else mergeDefaultHeaders rest userAgent (raw @ [(key, val)]))"

definition contentTypeBytes :: "ContentType \<Rightarrow> bytes" where
  "contentTypeBytes t =
     (case t of TEXT \<Rightarrow> toUtf8 ''text/plain''
              | JSON \<Rightarrow> toUtf8 ''application/json''
              | XML \<Rightarrow> toUtf8 ''application/xml'')"

definition buildRequest :: "(bytes \<times> bytes) list \<Rightarrow> Monitor \<Rightarrow> Request" where
  "buildRequest currentDefaultHeaders m =
     (let (userAgent, raw) = mergeDefaultHeaders currentDefaultHeaders defaultUserAgent []
      in if currentMethod m = GET \<or> currentMethod m = HEAD \<or> currentMethod m = DELETE
            \<or> currentMethod m = OPTIONS
         then \<lparr>requestPath = currentPath m, requestMethod = currentMethod m,
               rawHeaders = raw, userAgentHeader = userAgent, contentTypeHeader = None,
               contentLengthHeader = 0, requestTransferTimeout = None, requestBody = None\<rparr>
         else \<lparr>requestPath = currentPath m, requestMethod = currentMethod m,
               rawHeaders = raw,
               userAgentHeader = (if currentUserAgent m = [] then userAgent
                                  else currentUserAgent m),
               contentTypeHeader = Some (contentTypeBytes (currentContentType m)),
               contentLengthHeader = length (currentPostContent m),
               requestTransferTimeout = Some transferTimeout,
               requestBody = Some (currentPostContent m)\<rparr>)"

text \<open>
  What \<open>startCheck\<close> finds above the monitor: no host/scheme (\<open>parent()\<close> is null), a
  host/scheme without a customer (the code then calls \<open>paused()\<close> through a null pointer),
  or a host/scheme under a customer that is paused or not.
\<close>

datatype Parent = NoHostScheme | NoCustomer | UnderCustomer bool

text \<open>
  \<open>startCheck\<close>. \<open>reply\<close> is the address of the reply object that the network access
  manager returns for this request and \<open>now\<close> the clock in seconds. The result is the
  monitor and the request that was dispatched, if one was.
\<close>

definition startCheck ::
  "(bytes \<times> bytes) list \<Rightarrow> Parent \<Rightarrow> nat \<Rightarrow> u64 \<Rightarrow> Monitor
     \<Rightarrow> fault + Monitor \<times> Request option" where
  "startCheck currentDefaultHeaders parent reply now m =
     (if pendingReply m = None
      then (case parent of
              NoHostScheme \<Rightarrow> Inr (m\<lparr>lastHash := []\<rparr>, None)
            | NoCustomer \<Rightarrow> Inl NullPointer
            | UnderCustomer paused \<Rightarrow>
                if \<not> paused
                then Inr (m\<lparr>startTimestamp := now, pendingReply := Some reply\<rparr>,
                          Some (buildRequest currentDefaultHeaders m))
                else Inr (m, None))
      else Inr (m, None))"

text \<open>
  \<open>abort\<close>: the reply object is deleted when the pointer is not null, and the status
  becomes \<open>UNKNOWN\<close>. The member \<open>pendingReply\<close> is not assigned. The result is the
  monitor and the address of the deleted reply, if any.
\<close>

definition abort :: "Monitor \<Rightarrow> Monitor \<times> nat option" where
  "abort m = (m\<lparr>currentMonitorStatus := UNKNOWN\<rparr>, pendingReply m)"

subsection \<open>Content checks\<close>

text \<open>
  \<open>QByteArray::contains\<close>: the needle occurs in the data as a contiguous run of bytes.
\<close>

fun startsWith :: "bytes \<Rightarrow> bytes \<Rightarrow> bool" where
  "startsWith ds [] = True"
| "startsWith [] (k # ks) = False"
| "startsWith (d # ds) (k # ks) = (d = k \<and> startsWith ds ks)"

fun byteArrayContains :: "bytes \<Rightarrow> bytes \<Rightarrow> bool" where
  "byteArrayContains [] needle = (needle = [])"
| "byteArrayContains (d # ds) needle =
     (startsWith (d # ds) needle \<or> byteArrayContains ds needle)"

text \<open>
  A \<open>QCryptographicHash\<close> is modelled by the bytes added to it so far; \<open>result()\<close> is the
  parameter \<open>sha256\<close> applied to them. The monitor id is added as the four bytes of the
  \<open>std::uint32_t\<close> in memory, low byte first.

  The two keyword loops are \<open>do ... while\<close> loops over an index \<open>i\<close>; the list argument is
  the keywords from index \<open>i\<close> on, never empty when the body runs.
  \<open>anyKeywordsLoop\<close> returns \<open>success\<close> and the hash; \<open>allKeywordsLoop\<close> returns \<open>success\<close>,
  the bytes of the keyword that \<open>missingKeyword\<close> was decoded from, and the hash.
\<close>

fun anyKeywordsLoop :: "bytes \<Rightarrow> bytes list \<Rightarrow> bytes \<Rightarrow> bool \<times> bytes" where
  "anyKeywordsLoop receivedData [] hash = (False, hash)"
| "anyKeywordsLoop receivedData (keyword # rest) hash =
     (if byteArrayContains receivedData keyword then (True, hash @ keyword)
      else if rest \<noteq> [] then anyKeywordsLoop receivedData rest hash
      else (False, hash))"

fun allKeywordsLoop :: "bytes \<Rightarrow> bytes list \<Rightarrow> bytes \<Rightarrow> bool \<times> bytes option \<times> bytes" where
  "allKeywordsLoop receivedData [] hash = (True, None, hash)"
| "allKeywordsLoop receivedData (keyword # rest) hash =
     (if byteArrayContains receivedData keyword
      then (if rest \<noteq> [] then allKeywordsLoop receivedData rest (hash @ keyword)
            else (True, None, hash @ keyword))
      else (False, Some keyword, hash))"

definition checkContentChange ::
  "(bytes \<Rightarrow> bytes) \<Rightarrow> u64 \<Rightarrow> Monitor \<Rightarrow> bytes \<Rightarrow> Monitor \<times> Event list" where
  "checkContentChange sha256 now m receivedData =
     (let hash = le32 (currentMonitorId m) @ receivedData
      in if lastHash m = [] then (m\<lparr>lastHash := sha256 hash\<rparr>, [])
         else
           let thisHash = sha256 hash
           in if lastHash m \<noteq> thisHash
              then (m\<lparr>lastHash := thisHash\<rparr>,
                    [\<lparr>eventMonitorId = currentMonitorId m, eventTimestamp = now,
                      eventType = CONTENT_CHANGED,
                      eventMonitorStatus = currentMonitorStatus m,
                      eventHash = thisHash, eventMessage = []\<rparr>])
              else (m, []))"

definition checkAnyKeywordMatch ::
  "(bytes \<Rightarrow> bytes) \<Rightarrow> u64 \<Rightarrow> Monitor \<Rightarrow> bytes \<Rightarrow> Monitor \<times> Event list" where
  "checkAnyKeywordMatch sha256 now m receivedData =
     (let numberKeywords = length (currentKeywords m)
      in if numberKeywords > 0
         then
           let hash0 = le32 (currentMonitorId m) @ receivedData;
               (success, hash) = anyKeywordsLoop receivedData (currentKeywords m) hash0;
               thisHash = sha256 hash
           in (m\<lparr>lastHash := thisHash\<rparr>,
               if \<not> success \<and> lastHash m \<noteq> thisHash
               then [\<lparr>eventMonitorId = currentMonitorId m, eventTimestamp = now,
                      eventType = KEYWORDS, eventMonitorStatus = currentMonitorStatus m,
                      eventHash = thisHash, eventMessage = []\<rparr>]
               else [])
         else (m, []))"

text \<open>
  The message of the event is \<open>QString("Missing keyword \"%1\"").arg(missingKeyword)\<close>;
  \<open>doubleQuote\<close> is the character \<open>0x22\<close>.
\<close>

definition doubleQuote :: char where
  "doubleQuote = CHR 0x22"

definition checkAllKeywordMatch ::
  "(bytes \<Rightarrow> bytes) \<Rightarrow> (bytes \<Rightarrow> string) \<Rightarrow> u64 \<Rightarrow> Monitor \<Rightarrow> bytes
     \<Rightarrow> Monitor \<times> Event list" where
  "checkAllKeywordMatch sha256 fromUtf8 now m receivedData =
     (let numberKeywords = length (currentKeywords m)
      in if numberKeywords > 0
         then
           let hash0 = le32 (currentMonitorId m) @ receivedData;
               (success, missing, hash) = allKeywordsLoop receivedData (currentKeywords m) hash0;
               missingKeyword = (case missing of None \<Rightarrow> [] | Some keyword \<Rightarrow> fromUtf8 keyword);
               thisHash = sha256 hash
           in (m\<lparr>lastHash := thisHash\<rparr>,
               if \<not> success \<and> lastHash m \<noteq> thisHash
               then [\<lparr>eventMonitorId = currentMonitorId m, eventTimestamp = now,
                      eventType = KEYWORDS, eventMonitorStatus = currentMonitorStatus m,
                      eventHash = thisHash,
                      eventMessage =
                        ''Missing keyword '' @ [doubleQuote] @ missingKeyword
                        @ [doubleQuote]\<rparr>]
               else [])
         else (m, []))"

text \<open>
  \<open>checkContentChangeSmart\<close>: the HTML scrubber is outside this repository;
  \<open>smartHash receivedData idBytes\<close> is the result of its hasher after \<open>scrubAndHash()\<close>
  and \<open>addData\<close> of the monitor id.
\<close>

definition checkContentChangeSmart ::
  "(bytes \<Rightarrow> bytes \<Rightarrow> bytes) \<Rightarrow> u64 \<Rightarrow> Monitor \<Rightarrow> bytes \<Rightarrow> Monitor \<times> Event list" where
  "checkContentChangeSmart smartHash now m receivedData =
     (let hash = smartHash receivedData (le32 (currentMonitorId m))
      in if lastHash m = [] then (m\<lparr>lastHash := hash\<rparr>, [])
         else if lastHash m \<noteq> hash
         then (m\<lparr>lastHash := hash\<rparr>,
               [\<lparr>eventMonitorId = currentMonitorId m, eventTimestamp = now,
                 eventType = CONTENT_CHANGED, eventMonitorStatus = currentMonitorStatus m,
                 eventHash = hash, eventMessage = []\<rparr>])
         else (m, []))"

text \<open>
  The hash state of the \<open>ALL_KEYWORDS\<close> check in the words of the specification: the
  monitor id, the body, and every keyword that is found in the body, in order.
\<close>

definition spec_all_keywords_state :: "u32 \<Rightarrow> bytes \<Rightarrow> bytes list \<Rightarrow> bytes" where
  "spec_all_keywords_state monitor_id body keywords =
     le32 monitor_id @ body @ concat (filter (byteArrayContains body) keywords)"

section \<open>HostScheme: the monitors under one origin\<close>

text \<open>
  \<open>HostScheme\<close> (host_scheme.h/.cpp). \<open>monitorsByMonitorId\<close> is a
  \<open>QHash<MonitorId, Monitor*>\<close> and \<open>nonResponsiveMonitors\<close> a \<open>QSet<Monitor*>\<close>. Each is
  held as the list of its elements in iteration order; Qt leaves that order unspecified,
  and the model takes the order of insertion. A \<open>Monitor*\<close> is an index into the table of
  monitor objects of the \<open>World\<close> below. An iterator is \<open>None\<close> at \<open>end()\<close> and \<open>Some x\<close> at
  the element \<open>x\<close> (a key of the hash, an element of the set). The constructor sets
  \<open>nonResponsiveMonitorsIterator\<close> to \<open>end()\<close> and leaves \<open>monitorIterator\<close>
  default-constructed, which is taken to be \<open>end()\<close> as well.
\<close>

record HostScheme =
  currentHostSchemeId :: u32
  currentUrl :: string
  currentSslExpirationTimestamp :: u64
  monitorsByMonitorId :: "(u32 \<times> nat) list"
  monitorIterator :: "u32 option"
  nonResponsiveMonitors :: "nat list"
  nonResponsiveMonitorsIterator :: "nat option"

definition invalidSslExpirationTimestamp :: u64 where
  "invalidSslExpirationTimestamp = 0"

definition newHostScheme :: "u32 \<Rightarrow> string \<Rightarrow> HostScheme" where
  "newHostScheme hostSchemeId url =
     \<lparr>currentHostSchemeId = hostSchemeId, currentUrl = url,
      currentSslExpirationTimestamp = invalidSslExpirationTimestamp,
      monitorsByMonitorId = [], monitorIterator = None,
      nonResponsiveMonitors = [], nonResponsiveMonitorsIterator = None\<rparr>"

subsection \<open>Containers and iterators\<close>

text \<open>
  \<open>beginOf\<close> is \<open>begin()\<close>; \<open>nextOf xs x\<close> is the iterator after the element \<open>x\<close>, which is
  what \<open>++\<close> gives on an iterator at \<open>x\<close> and what \<open>erase\<close> returns for it.
  \<open>hashInsert\<close> is \<open>QHash::insert\<close> (the value of an existing key is replaced),
  \<open>setInsert\<close> is \<open>QSet::insert\<close>, and \<open>removeAll\<close> of the library is \<open>QSet::remove\<close>.
\<close>

definition beginOf :: "'a list \<Rightarrow> 'a option" where
  "beginOf xs = (case xs of [] \<Rightarrow> None | x # rest \<Rightarrow> Some x)"

fun nextOf :: "'a list \<Rightarrow> 'a \<Rightarrow> 'a option" where
  "nextOf [] x = None"
| "nextOf (y # ys) x = (if y = x then beginOf ys else nextOf ys x)"

fun hashInsert :: "'k \<Rightarrow> 'v \<Rightarrow> ('k \<times> 'v) list \<Rightarrow> ('k \<times> 'v) list" where
  "hashInsert k v [] = [(k, v)]"
| "hashInsert k v (entry # rest) =
     (if fst entry = k then (k, v) # rest else entry # hashInsert k v rest)"

definition setInsert :: "'a \<Rightarrow> 'a list \<Rightarrow> 'a list" where
  "setInsert x xs = (if x \<in> set xs then xs else xs @ [x])"

subsection \<open>The world around a host/scheme\<close>

text \<open>
  One host/scheme under a customer, with everything its monitors reach: the monitor
  objects, the customer's \<open>paused\<close> and latency flags, the static default headers, the
  calls made on the data aggregator (\<open>reportEvent\<close>, \<open>recordLatency\<close>,
  \<open>reportSslCertificateExpirationChange\<close>) in order, the requests handed to the network
  access manager with the monitor that sent each, the address of the next reply object,
  and the addresses of the reply objects deleted by \<open>abort\<close>.
\<close>

record World =
  monitorObjects :: "Monitor list"
  hostScheme :: HostScheme
  customerPaused :: bool
  supportsLatencyMeasurements :: bool
  currentDefaultHeaders :: "(bytes \<times> bytes) list"
  reportedEvents :: "Event list"
  recordedLatencies :: "(u32 \<times> u64 \<times> u64) list"
  reportedCertificates :: "(u32 \<times> u32 \<times> u64) list"
  dispatched :: "(nat \<times> Request) list"
  nextReply :: nat
  deletedReplies :: "nat list"

definition newWorld :: "HostScheme \<Rightarrow> bool \<Rightarrow> World" where
  "newWorld hs latency =
     \<lparr>monitorObjects = [], hostScheme = hs, customerPaused = False,
      supportsLatencyMeasurements = latency, currentDefaultHeaders = [],
      reportedEvents = [], recordedLatencies = [], reportedCertificates = [],
      dispatched = [], nextReply = 0, deletedReplies = []\<rparr>"

text \<open>
  \<open>monitor->startCheck()\<close> and \<open>monitor->abort()\<close> through a pointer. \<open>now\<close> is the clock
  in seconds during the slot that makes the call.
\<close>

definition monitorStartCheck :: "u64 \<Rightarrow> nat \<Rightarrow> World \<Rightarrow> fault + World" where
  "monitorStartCheck now p w =
     (if p \<ge> length (monitorObjects w) then Inl BadPointer
      else
        case startCheck (currentDefaultHeaders w) (UnderCustomer (customerPaused w))
               (nextReply w) now (monitorObjects w ! p) of
          Inl f \<Rightarrow> Inl f
        | Inr (m, None) \<Rightarrow> Inr (w\<lparr>monitorObjects := (monitorObjects w)[p := m]\<rparr>)
        | Inr (m, Some request) \<Rightarrow>
            Inr (w\<lparr>monitorObjects := (monitorObjects w)[p := m],
                   dispatched := dispatched w @ [(p, request)],
                   nextReply := nextReply w + 1\<rparr>))"

definition monitorAbort :: "nat \<Rightarrow> World \<Rightarrow> fault + World" where
  "monitorAbort p w =
     (if p \<ge> length (monitorObjects w) then Inl BadPointer
      else
        case abort (monitorObjects w ! p) of
          (m, None) \<Rightarrow> Inr (w\<lparr>monitorObjects := (monitorObjects w)[p := m]\<rparr>)
        | (m, Some reply) \<Rightarrow>
            Inr (w\<lparr>monitorObjects := (monitorObjects w)[p := m],
                   deletedReplies := deletedReplies w @ [reply]\<rparr>))"

subsection \<open>The slots of the host/scheme\<close>

text \<open>
  \<open>serviceNextMonitor\<close>. Reading \<open>monitorIterator.value()\<close> or
  \<open>*nonResponsiveMonitorsIterator\<close> at \<open>end()\<close> is a fault, and so is reading through an
  iterator whose key is no longer in the hash.
\<close>

definition serviceNextMonitor :: "u64 \<Rightarrow> World \<Rightarrow> fault + World" where
  "serviceNextMonitor now w =
     (let hs = hostScheme w;
          keys = map fst (monitorsByMonitorId hs);
          it1 = (if monitorIterator hs = None then beginOf keys else monitorIterator hs)
      in case it1 of
           None \<Rightarrow> Inl DerefEnd
         | Some key \<Rightarrow>
             (case map_of (monitorsByMonitorId hs) key of
                None \<Rightarrow> Inl BadPointer
              | Some monitor \<Rightarrow>
                  let it2 = nextOf keys key;
                      it3 = (if it2 = None then beginOf keys else it2)
                  in if nonResponsiveMonitors hs \<noteq> []
                     then
                       let nit1 = (if nonResponsiveMonitorsIterator hs = None
                                   then beginOf (nonResponsiveMonitors hs)
                                   else nonResponsiveMonitorsIterator hs)
                       in case nit1 of
                            None \<Rightarrow> Inl DerefEnd
                          | Some nonResponsiveMonitor \<Rightarrow>
                              let nit2 = nextOf (nonResponsiveMonitors hs) nonResponsiveMonitor;
                                  nit3 = (if nit2 = None
                                          then beginOf (nonResponsiveMonitors hs) else nit2);
                                  w1 = w\<lparr>hostScheme :=
                                          hs\<lparr>monitorIterator := it3,
                                             nonResponsiveMonitorsIterator := nit3\<rparr>\<rparr>
                              in case monitorStartCheck now monitor w1 of
                                   Inl f \<Rightarrow> Inl f
                                 | Inr w2 \<Rightarrow>
                                     if monitor \<noteq> nonResponsiveMonitor
                                     then monitorStartCheck now nonResponsiveMonitor w2
                                     else Inr w2
                     else monitorStartCheck now monitor
                            (w\<lparr>hostScheme := hs\<lparr>monitorIterator := it3\<rparr>\<rparr>)))"

definition monitorNonResponsive :: "nat \<Rightarrow> World \<Rightarrow> World" where
  "monitorNonResponsive monitor w =
     (let hs = hostScheme w
      in if nonResponsiveMonitors hs = []
         then w\<lparr>hostScheme :=
                 hs\<lparr>nonResponsiveMonitors := setInsert monitor (nonResponsiveMonitors hs),
                    nonResponsiveMonitorsIterator :=
                      beginOf (setInsert monitor (nonResponsiveMonitors hs))\<rparr>\<rparr>
         else w\<lparr>hostScheme :=
                 hs\<lparr>nonResponsiveMonitors := setInsert monitor (nonResponsiveMonitors hs)\<rparr>\<rparr>)"

text \<open>
  \<open>monitorNowResponsive\<close>: the monitor leaves the set, by \<open>erase\<close> when the iterator is at
  it and by \<open>remove\<close> otherwise; then, if the set is not empty, the first monitor of the set
  is checked at once and the iterator is incremented, a fault when it is at \<open>end()\<close>.
\<close>

definition monitorNowResponsive :: "u64 \<Rightarrow> nat \<Rightarrow> World \<Rightarrow> fault + World" where
  "monitorNowResponsive now monitor w =
     (let hs = hostScheme w;
          hs1 = (if nonResponsiveMonitorsIterator hs \<noteq> None
                    \<and> nonResponsiveMonitorsIterator hs = Some monitor
                 then
                   let erased = removeAll monitor (nonResponsiveMonitors hs);
                       it = nextOf (nonResponsiveMonitors hs) monitor
                   in hs\<lparr>nonResponsiveMonitors := erased,
                         nonResponsiveMonitorsIterator :=
                           (if it = None \<and> erased \<noteq> [] then beginOf erased else it)\<rparr>
                 else hs\<lparr>nonResponsiveMonitors :=
                            removeAll monitor (nonResponsiveMonitors hs)\<rparr>)
      in if nonResponsiveMonitors hs1 \<noteq> []
         then
           case beginOf (nonResponsiveMonitors hs1) of
             None \<Rightarrow> Inl DerefEnd
           | Some nextMonitorToTest \<Rightarrow>
               (case nonResponsiveMonitorsIterator hs1 of
                  None \<Rightarrow> Inl DerefEnd
                | Some x \<Rightarrow>
                    let it2 = nextOf (nonResponsiveMonitors hs1) x;
                        it3 = (if it2 = None then beginOf (nonResponsiveMonitors hs1) else it2)
                    in monitorStartCheck now nextMonitorToTest
                         (w\<lparr>hostScheme := hs1\<lparr>nonResponsiveMonitorsIterator := it3\<rparr>\<rparr>))
         else Inr (w\<lparr>hostScheme := hs1\<rparr>))"

text \<open>
  \<open>monitorAdded\<close>, and \<open>addMonitor\<close> for a monitor that was just constructed: the object
  gets the next free place in the table and is reported to the host/scheme.
\<close>

definition monitorAdded :: "nat \<Rightarrow> World \<Rightarrow> fault + World" where
  "monitorAdded monitor w =
     (if monitor \<ge> length (monitorObjects w) then Inl BadPointer
      else
        let hs = hostScheme w;
            isFirstMonitor = (monitorsByMonitorId hs = []);
            monitors = hashInsert (currentMonitorId (monitorObjects w ! monitor)) monitor
                         (monitorsByMonitorId hs);
            isFirstNonResponsiveMonitor = (nonResponsiveMonitors hs = []);
            suspects = setInsert monitor (nonResponsiveMonitors hs)
        in Inr (w\<lparr>hostScheme :=
                   hs\<lparr>monitorsByMonitorId := monitors,
                      monitorIterator :=
                        (if isFirstMonitor then beginOf (map fst monitors)
                         else monitorIterator hs),
                      nonResponsiveMonitors := suspects,
                      nonResponsiveMonitorsIterator :=
                        (if isFirstNonResponsiveMonitor then beginOf suspects
                         else nonResponsiveMonitorsIterator hs)\<rparr>\<rparr>))"

definition addMonitor :: "Monitor \<Rightarrow> World \<Rightarrow> fault + World" where
  "addMonitor m w =
     monitorAdded (length (monitorObjects w)) (w\<lparr>monitorObjects := monitorObjects w @ [m]\<rparr>)"

subsection \<open>The reply to a check\<close>

definition maximumAllowedLatencyMicroseconds :: u64 where
  "maximumAllowedLatencyMicroseconds = 1000 * of_nat transferTimeout"

definition reportEvent :: "Event \<Rightarrow> World \<Rightarrow> World" where
  "reportEvent e w = w\<lparr>reportedEvents := reportedEvents w @ [e]\<rparr>"

text \<open>
  The functions of the reply take the hash functions and the decoder as the record
  \<open>Library\<close>, the clock \<open>now\<close>, and the pointer \<open>this\<close> of the monitor.
\<close>

record Library =
  sha256 :: "bytes \<Rightarrow> bytes"
  smartHash :: "bytes \<Rightarrow> bytes \<Rightarrow> bytes"
  fromUtf8 :: "bytes \<Rightarrow> string"

definition contentCheck :: "Library \<Rightarrow> u64 \<Rightarrow> Monitor \<Rightarrow> bytes \<Rightarrow> Monitor \<times> Event list" where
  "contentCheck lib now m receivedData =
     (if currentContentCheckMode m = CONTENT_MATCH
      then checkContentChange (sha256 lib) now m receivedData
      else if currentContentCheckMode m = ANY_KEYWORDS
      then checkAnyKeywordMatch (sha256 lib) now m receivedData
      else if currentContentCheckMode m = ALL_KEYWORDS
      then checkAllKeywordMatch (sha256 lib) (fromUtf8 lib) now m receivedData
      else if currentContentCheckMode m = SMART_CONTENT_MATCH
      then checkContentChangeSmart (smartHash lib) now m receivedData
      else (m, []))"

text \<open>
  \<open>processValidResponse\<close>. \<open>receivedData\<close> is what \<open>pendingReply->readAll()\<close> returns and
  \<open>certificateExpiry\<close> is the expiry of the peer certificate in seconds when the reply
  carries one. The steps are those of the source, in order: the recovery (the host/scheme
  is told first, then the \<open>WORKING\<close> event is reported with the status before the
  change; this first statement is \<open>reportRecovery\<close>), the status, the content check, the
  latency sample, the certificate.
\<close>

definition reportRecovery :: "u64 \<Rightarrow> nat \<Rightarrow> World \<Rightarrow> fault + World" where
  "reportRecovery now this w =
     (if currentMonitorStatus (monitorObjects w ! this) \<noteq> WORKING
      then (case monitorNowResponsive now this w of
              Inl f \<Rightarrow> Inl f
            | Inr w' \<Rightarrow>
                Inr (reportEvent
                       \<lparr>eventMonitorId = currentMonitorId (monitorObjects w' ! this),
                        eventTimestamp = now, eventType = WORKING_EVENT,
                        eventMonitorStatus = currentMonitorStatus (monitorObjects w' ! this),
                        eventHash = [], eventMessage = []\<rparr> w'))
      else Inr w)"

definition processValidResponse ::
  "Library \<Rightarrow> u64 \<Rightarrow> u64 \<Rightarrow> bytes \<Rightarrow> u64 option \<Rightarrow> nat \<Rightarrow> World \<Rightarrow> fault + World" where
  "processValidResponse lib now elapsedTimeNanoseconds receivedData certificateExpiry this w =
     (if this \<ge> length (monitorObjects w) then Inl BadPointer
      else
        case reportRecovery now this w of
          Inl f \<Rightarrow> Inl f
        | Inr w1 \<Rightarrow>
            let m1 = (monitorObjects w1 ! this)\<lparr>currentMonitorStatus := WORKING\<rparr>;
                (m2, events) = (if currentContentCheckMode m1 \<noteq> NO_CHECK
                                then contentCheck lib now m1 receivedData
                                else (m1, []));
                w2 = w1\<lparr>monitorObjects := (monitorObjects w1)[this := m2],
                        reportedEvents := reportedEvents w1 @ events\<rparr>;
                elapsedTimeMicroseconds = (elapsedTimeNanoseconds + 500) div 1000;
                w3 = (if supportsLatencyMeasurements w2
                         \<and> elapsedTimeMicroseconds \<le> maximumAllowedLatencyMicroseconds
                      then w2\<lparr>recordedLatencies :=
                                recordedLatencies w2
                                @ [(currentMonitorId m2, startTimestamp m2,
                                    elapsedTimeMicroseconds)]\<rparr>
                      else w2)
            in Inr (case certificateExpiry of
                      None \<Rightarrow> w3
                    | Some newExpirationTimestamp \<Rightarrow>
                        if currentSslExpirationTimestamp (hostScheme w3)
                             \<noteq> newExpirationTimestamp
                        then w3\<lparr>hostScheme :=
                                  (hostScheme w3)\<lparr>currentSslExpirationTimestamp :=
                                                    newExpirationTimestamp\<rparr>,
                                reportedCertificates :=
                                  reportedCertificates w3
                                  @ [(currentMonitorId m2,
                                      currentHostSchemeId (hostScheme w3),
                                      newExpirationTimestamp)]\<rparr>
                        else w3))"

definition processErrorResponse :: "u64 \<Rightarrow> string \<Rightarrow> nat \<Rightarrow> World \<Rightarrow> fault + World" where
  "processErrorResponse now errorMessage this w =
     (if this \<ge> length (monitorObjects w) then Inl BadPointer
      else
        let m = monitorObjects w ! this
        in if currentMonitorStatus m \<noteq> FAILED
           then
             let w1 = reportEvent
                        \<lparr>eventMonitorId = currentMonitorId m, eventTimestamp = now,
                         eventType = NO_RESPONSE, eventMonitorStatus = currentMonitorStatus m,
                         eventHash = [], eventMessage = errorMessage\<rparr> w;
                 w2 = w1\<lparr>monitorObjects :=
                           (monitorObjects w1)[this := m\<lparr>currentMonitorStatus := FAILED\<rparr>]\<rparr>
             in Inr (monitorNonResponsive this w2)
           else Inr w)"

text \<open>
  \<open>responseReceived\<close>, the slot of the reply's \<open>finished\<close> signal. The reply either
  carries no error, with its body and possibly a certificate, or an error string. The
  slot reads through \<open>pendingReply\<close> (a fault when it is null) and sets it to null at the
  end.
\<close>

datatype Reply = NoError bytes "u64 option" | NetworkError string

definition responseReceived ::
  "Library \<Rightarrow> u64 \<Rightarrow> u64 \<Rightarrow> Reply \<Rightarrow> nat \<Rightarrow> World \<Rightarrow> fault + World" where
  "responseReceived lib now elapsedNanoseconds reply this w =
     (if this \<ge> length (monitorObjects w) then Inl BadPointer
      else if pendingReply (monitorObjects w ! this) = None then Inl NullPointer
      else
        case (case reply of
                NoError receivedData certificateExpiry \<Rightarrow>
                  processValidResponse lib now elapsedNanoseconds receivedData
                    certificateExpiry this w
              | NetworkError errorMessage \<Rightarrow> processErrorResponse now errorMessage this w) of
          Inl f \<Rightarrow> Inl f
        | Inr w1 \<Rightarrow>
            Inr (w1\<lparr>monitorObjects :=
                      (monitorObjects w1)
                        [this := (monitorObjects w1 ! this)\<lparr>pendingReply := None\<rparr>]\<rparr>))"

text \<open>
  The suspect-set invariant of the specification, as a test on a world: every monitor of
  the hash is in \<open>nonResponsiveMonitors\<close> exactly when its status is not \<open>WORKING\<close>.
\<close>

definition suspectInvariant :: "World \<Rightarrow> bool" where
  "suspectInvariant w =
     list_all (\<lambda>entry. snd entry < length (monitorObjects w)
                 \<and> ((snd entry \<in> set (nonResponsiveMonitors (hostScheme w)))
                      = (currentMonitorStatus (monitorObjects w ! snd entry) \<noteq> WORKING)))
       (monitorsByMonitorId (hostScheme w))"

section \<open>The control API: \<open>/customer/add\<close>\<close>

text \<open>
  \<open>InboundRestApi::CustomerAdd\<close> (inbound_rest_api.cpp), with the parts of \<open>Customer\<close>,
  \<open>HttpServiceThread\<close> and \<open>ServiceThreadTracker\<close> that it drives.

  A JSON value is a \<open>json\<close>; a number is held with its integer value (the handler reads
  numbers with \<open>toInt\<close> only, which gives the default for a number that is not whole). A
  \<open>QJsonObject\<close> is the list of its members in the order of iteration, each key once.
  \<open>map_of\<close> on it is \<open>QJsonObject::value\<close>, with \<open>None\<close> for the undefined value.
\<close>

datatype json =
  JNull | JBool bool | JNumber int | JString string | JArray "json list"
  | JObject "(string \<times> json) list"

text \<open>
  The functions of Qt that the handler calls on strings are parameters, collected in the
  record \<open>Qt\<close>: \<open>QString::toUInt\<close> (\<open>None\<close> when it reports failure),
  \<open>QByteArray::fromBase64Encoding\<close> with \<open>AbortOnBase64DecodingErrors\<close>,
  \<open>QUrl::isValid\<close> of the URL built from a string, \<open>trimmed().toLower()\<close>, and the
  decimal text that \<open>QString::arg\<close> gives for an unsigned number.
\<close>

record Qt =
  toUInt :: "string \<Rightarrow> u32 option"
  fromBase64Encoding :: "bytes \<Rightarrow> bytes option"
  urlIsValid :: "string \<Rightarrow> bool"
  trimmedToLower :: "string \<Rightarrow> string"
  decimal :: "nat \<Rightarrow> string"

text \<open>\<open>QString::arg\<close> with one argument: the place marker \<open>%1\<close> is replaced.\<close>

fun arg :: "string \<Rightarrow> string \<Rightarrow> string" where
  "arg [] a = []"
| "arg [c] a = [c]"
| "arg (c # d # rest) a =
     (if c = CHR ''%'' \<and> d = CHR ''1'' then a @ arg rest a else c # arg (d # rest) a)"

definition quoted :: "string \<Rightarrow> string" where
  "quoted str = [doubleQuote] @ str @ [doubleQuote]"

definition jsonToString :: "json option \<Rightarrow> string" where
  "jsonToString v = (case v of Some (JString str) \<Rightarrow> str | _ \<Rightarrow> [])"

definition jsonToBool :: "bool \<Rightarrow> json option \<Rightarrow> bool" where
  "jsonToBool defaultValue v = (case v of Some (JBool b) \<Rightarrow> b | _ \<Rightarrow> defaultValue)"

definition jsonToInt :: "int \<Rightarrow> json option \<Rightarrow> int" where
  "jsonToInt defaultValue v =
     (case v of
        Some (JNumber i) \<Rightarrow> if - (2 ^ 31) \<le> i \<and> i < 2 ^ 31 then i else defaultValue
      | _ \<Rightarrow> defaultValue)"

text \<open>
  \<open>Monitor::toMethod\<close>, \<open>toContentCheckMode\<close> and \<open>toContentType\<close>: the value and what is
  stored into \<open>*ok\<close>.
\<close>

definition toMethod :: "Qt \<Rightarrow> string \<Rightarrow> Method \<times> bool" where
  "toMethod qt str =
     (let l = trimmedToLower qt str
      in if l = ''get'' then (GET, True)
         else if l = ''head'' then (HEAD, True)
         else if l = ''post'' then (POST, True)
         else if l = ''put'' then (PUT, True)
         else if l = ''delete'' then (DELETE, True)
         else if l = ''options'' then (OPTIONS, True)
         else if l = ''patch'' then (PATCH, True)
         else (GET, False))"

definition toContentCheckMode :: "Qt \<Rightarrow> string \<Rightarrow> ContentCheckMode \<times> bool" where
  "toContentCheckMode qt str =
     (let l = map (\<lambda>c. if c = CHR ''-'' then CHR ''_'' else c) (trimmedToLower qt str)
      in if l = ''no_check'' then (NO_CHECK, True)
         else if l = ''content_match'' then (CONTENT_MATCH, True)
         else if l = ''all_keywords'' then (ALL_KEYWORDS, True)
         else if l = ''any_keywords'' then (ANY_KEYWORDS, True)
         else if l = ''smart_content_match'' then (SMART_CONTENT_MATCH, True)
         else (NO_CHECK, False))"

definition toContentType :: "Qt \<Rightarrow> string \<Rightarrow> ContentType \<times> bool" where
  "toContentType qt str =
     (let l = trimmedToLower qt str
      in if l = ''json'' then (JSON, True)
         else if l = ''text'' then (TEXT, True)
         else if l = ''xml'' then (XML, True)
         else (TEXT, False))"

text \<open>
  The two reference parameters \<open>bool& success\<close> and \<open>QString& statusString\<close> that the
  \<open>generate...\<close> functions share with their caller. \<open>failing\<close> is the pair of assignments
  \<open>success = false; statusString = ...\<close>.
\<close>

record Status =
  success :: bool
  statusString :: string

definition failing :: "Status \<Rightarrow> string \<Rightarrow> Status" where
  "failing st message = st\<lparr>success := False, statusString := message\<rparr>"

text \<open>The loop of \<open>generateMonitor\<close> over the array of keywords.\<close>

fun keywordsLoop :: "Qt \<Rightarrow> u32 \<Rightarrow> json list \<Rightarrow> Status \<times> bytes list \<Rightarrow> Status \<times> bytes list" where
  "keywordsLoop qt monitorId [] (st, keywordList) = (st, keywordList)"
| "keywordsLoop qt monitorId (item # rest) (st, keywordList) =
     (if \<not> success st then (st, keywordList)
      else
        case fromBase64Encoding qt (toUtf8 (jsonToString (Some item))) of
          Some decoded \<Rightarrow> keywordsLoop qt monitorId rest (st, keywordList @ [decoded])
        | None \<Rightarrow>
            (failing st
               (arg ''failed, keyword entries should be base64 encoded as per RFC4648, monitor ID %1''
                  (decimal qt (unat monitorId))),
             keywordList))"

text \<open>
  \<open>generateMonitor\<close>. The fields of the JSON object are read in the order of the source,
  each step taking the status left by the one before. The calls \<open>toMethod(..., &success)\<close>,
  \<open>toContentCheckMode(..., &success)\<close>, \<open>toContentType(..., &success)\<close> and the
  assignment \<open>success = keywordsValue.isArray()\<close> store into \<open>success\<close> whatever it held.
\<close>

definition generateMonitor ::
  "Qt \<Rightarrow> Status \<Rightarrow> u32 \<Rightarrow> (string \<times> json) list \<Rightarrow> Monitor option \<times> Status" where
  "generateMonitor qt st0 monitorId jsonData =
     (let idText = decimal qt (unat monitorId);
          (st1, uriString, n1) =
            (case map_of jsonData ''uri'' of
               Some (JString str) \<Rightarrow> (st0, str, 1::nat)
             | Some other \<Rightarrow>
                 (failing st0 (arg ''failed, uri must be a string, monitor %1'' idText), [], 1)
             | None \<Rightarrow>
                 (failing st0
                    (arg (''missing required field '' @ quoted ''uri'' @ '', monitor ID %1'')
                       idText), [], 0));
          (st2, parsedMethod, n2) =
            (case map_of jsonData ''method'' of
               Some (JString str) \<Rightarrow>
                 (let (value, ok) = toMethod qt str
                  in (if ok then st1\<lparr>success := True\<rparr>
                      else failing st1
                             (arg (''failed, invalid method, use '' @ quoted ''get'' @ '' or ''
                                   @ quoted ''post'' @ '', monitor ID %1'') idText),
                      value, n1 + 1))
             | Some other \<Rightarrow>
                 (failing st1
                    (arg ''failed, method fields must be a string, monitor ID %1'' idText),
                  GET, n1 + 1)
             | None \<Rightarrow> (st1, GET, n1));
          (st3, parsedMode, n3) =
            (case map_of jsonData ''content_check_mode'' of
               Some (JString str) \<Rightarrow>
                 (let (value, ok) = toContentCheckMode qt str
                  in (if ok then st2\<lparr>success := True\<rparr>
                      else failing st2
                             (arg (''failed, invalid content_check_mode, use ''
                                   @ quoted ''no_check'' @ '', '' @ quoted ''content_match''
                                   @ '', '' @ quoted ''all_keywords'' @ '', or ''
                                   @ quoted ''any_keywords'' @ '', monitor ID %1'') idText),
                      value, n2 + 1))
             | Some other \<Rightarrow>
                 (failing st2
                    (arg ''failed, content_check_mode fields must be a string, monitor ID %1''
                       idText),
                  NO_CHECK, n2 + 1)
             | None \<Rightarrow> (st2, NO_CHECK, n2));
          (st4, parsedType, n4) =
            (case map_of jsonData ''post_content_type'' of
               Some (JString str) \<Rightarrow>
                 (let (value, ok) = toContentType qt str
                  in (if ok then st3\<lparr>success := True\<rparr>
                      else failing st3
                             (arg (''failed, invalid post_content_type, use ''
                                   @ quoted ''text'' @ '', '' @ quoted ''json'' @ '', or ''
                                   @ quoted ''xml'' @ '', monitor ID %1'') idText),
                      value, n3 + 1))
             | Some other \<Rightarrow>
                 (failing st3
                    (arg ''failed, post_content_type fields must be a string, monitor ID %1''
                       idText),
                  TEXT, n3 + 1)
             | None \<Rightarrow> (st3, TEXT, n3));
          (st5, keywordList, n5) =
            (case map_of jsonData ''keywords'' of
               Some (JArray keywordsArray) \<Rightarrow>
                 (let (st, decoded) =
                        keywordsLoop qt monitorId keywordsArray (st4\<lparr>success := True\<rparr>, [])
                  in (st, decoded, n4 + 1))
             | Some other \<Rightarrow>
                 (failing st4
                    (arg ''failed, keywords must be an array of RFC4648 base64 encoded values, monitor ID %1''
                       idText),
                  [], n4 + 1)
             | None \<Rightarrow> (st4, [], n4));
          (st6, userAgent, n6) =
            (case map_of jsonData ''post_user_agent'' of
               Some (JString str) \<Rightarrow> (st5, str, n5 + 1)
             | Some other \<Rightarrow>
                 (failing st5
                    (arg ''failed, post_user_agent must be a string, monitor ID %1'' idText),
                  [], n5 + 1)
             | None \<Rightarrow> (st5, [], n5));
          (st7, postContent, n7) =
            (case map_of jsonData ''post_content'' of
               Some (JString str) \<Rightarrow>
                 (case fromBase64Encoding qt (toUtf8 str) of
                    Some decoded \<Rightarrow> (st6, decoded, n6 + 1)
                  | None \<Rightarrow>
                      (failing st6
                         (arg ''failed, post_user_agent should be base64 encoded as per RFC4648, monitor ID %1''
                            idText),
                       [], n6 + 1))
             | Some other \<Rightarrow>
                 (failing st6
                    (arg ''failed, post_user_agent must be a string holding RFC4648 base64 encoded values, monitor ID %1''
                       idText),
                  [], n6 + 1)
             | None \<Rightarrow> (st6, [], n6));
          st8 = (if n7 \<noteq> length jsonData
                 then failing st7 (arg ''failed, unexpected entries, monitor ID %1'' idText)
                 else st7)
      in (if success st8
          then Some (newMonitor monitorId uriString parsedMethod parsedMode keywordList
                       parsedType userAgent postContent)
          else None,
          st8))"

text \<open>
  A host/scheme under construction is a \<open>World\<close>: the host/scheme and its monitor
  objects. \<open>addMonitor\<close> on it is given a pointer to the object it has just placed and
  cannot fault.
\<close>

definition addNewMonitor :: "Monitor \<Rightarrow> World \<Rightarrow> World" where
  "addNewMonitor m w = (case addMonitor m w of Inr w' \<Rightarrow> w' | Inl f \<Rightarrow> w)"

fun monitorsLoop :: "Qt \<Rightarrow> (string \<times> json) list \<Rightarrow> Status \<times> World \<Rightarrow> Status \<times> World" where
  "monitorsLoop qt [] (st, result) = (st, result)"
| "monitorsLoop qt ((monitorIdString, monitorValue) # rest) (st, result) =
     (if \<not> success st then (st, result)
      else
        let (monitorId, ok) = (case toUInt qt monitorIdString of
                                 Some n \<Rightarrow> (n, True) | None \<Rightarrow> (0, False));
            st0 = st\<lparr>success := ok\<rparr>
        in if success st0 \<and> monitorId \<noteq> 0
           then (case monitorValue of
                   JObject monitorObject \<Rightarrow>
                     (let (monitor, st1) = generateMonitor qt st0 monitorId monitorObject
                      in monitorsLoop qt rest
                           (st1, case monitor of
                                   Some m \<Rightarrow> addNewMonitor m result
                                 | None \<Rightarrow> result))
                 | other \<Rightarrow>
                     monitorsLoop qt rest
                       (failing st0
                          (arg ''failed, expected object, monitor ID %1''
                             (decimal qt (unat monitorId))),
                        result))
           else monitorsLoop qt rest
                  (failing st0 (arg ''failed, invalid monitors ID %1'' monitorIdString),
                   result))"

definition generateHostScheme ::
  "Qt \<Rightarrow> Status \<Rightarrow> u32 \<Rightarrow> (string \<times> json) list \<Rightarrow> World option \<times> Status" where
  "generateHostScheme qt st hostSchemeId jsonData =
     (let idText = decimal qt (unat hostSchemeId)
      in if map_of jsonData ''url'' \<noteq> None \<and> map_of jsonData ''monitors'' \<noteq> None
         then (case map_of jsonData ''monitors'' of
                 Some (JObject monitorsObject) \<Rightarrow>
                   (let urlString = jsonToString (map_of jsonData ''url'')
                    in if urlIsValid qt urlString
                       then (let (st1, result) =
                                   monitorsLoop qt monitorsObject
                                     (st, newWorld (newHostScheme hostSchemeId urlString) False)
                             in (Some result, st1))
                       else (None,
                             failing st (arg ''failed, invalid URL, host/scheme %1'' idText)))
               | other \<Rightarrow>
                   (None, failing st (arg ''failed, expected object, host/scheme %1'' idText)))
         else (None,
               failing st (arg ''failed, missing required fields, host/scheme %1'' idText)))"

text \<open>
  \<open>Customer\<close> (customer.h/.cpp): the fields set by the constructor and the hash of its
  host/schemes. \<open>addHostScheme\<close> makes the customer the parent of the host/scheme, which
  from then on sees the customer's \<open>paused\<close> and latency flags.
\<close>

record Customer =
  currentCustomerId :: u32
  currentSupportsPingTesting :: bool
  currentSupportsSslExpirationChecking :: bool
  currentSupportsLatencyMeasurements :: bool
  currentSupportsMultiRegionTesting :: bool
  currentPollingInterval :: u32
  currentlyPaused :: bool
  hostSchemesByHostSchemeId :: "(u32 \<times> World) list"

definition newCustomer :: "u32 \<Rightarrow> bool \<Rightarrow> bool \<Rightarrow> bool \<Rightarrow> bool \<Rightarrow> u32 \<Rightarrow> Customer" where
  "newCustomer customerId ping ssl latency multiRegion pollingInterval =
     \<lparr>currentCustomerId = customerId, currentSupportsPingTesting = ping,
      currentSupportsSslExpirationChecking = ssl,
      currentSupportsLatencyMeasurements = latency,
      currentSupportsMultiRegionTesting = multiRegion,
      currentPollingInterval = pollingInterval, currentlyPaused = False,
      hostSchemesByHostSchemeId = []\<rparr>"

definition addHostScheme :: "World \<Rightarrow> Customer \<Rightarrow> Customer" where
  "addHostScheme hs c =
     c\<lparr>hostSchemesByHostSchemeId :=
         hashInsert (currentHostSchemeId (hostScheme hs))
           (hs\<lparr>customerPaused := currentlyPaused c,
               supportsLatencyMeasurements := currentSupportsLatencyMeasurements c\<rparr>)
           (hostSchemesByHostSchemeId c)\<rparr>"

fun hostSchemesLoop ::
  "Qt \<Rightarrow> (string \<times> json) list \<Rightarrow> Status \<times> Customer \<Rightarrow> Status \<times> Customer" where
  "hostSchemesLoop qt [] (st, result) = (st, result)"
| "hostSchemesLoop qt ((hostSchemeIdString, hostSchemeValue) # rest) (st, result) =
     (if \<not> success st then (st, result)
      else
        let (hostSchemeId, ok) = (case toUInt qt hostSchemeIdString of
                                    Some n \<Rightarrow> (n, True) | None \<Rightarrow> (0, False));
            st0 = st\<lparr>success := ok\<rparr>
        in if success st0 \<and> hostSchemeId \<noteq> 0
           then (case hostSchemeValue of
                   JObject hostSchemeObject \<Rightarrow>
                     (let (hs, st1) = generateHostScheme qt st0 hostSchemeId hostSchemeObject
                      in hostSchemesLoop qt rest
                           (st1, case hs of
                                   Some w \<Rightarrow> addHostScheme w result
                                 | None \<Rightarrow> result))
                 | other \<Rightarrow>
                     hostSchemesLoop qt rest
                       (failing st0
                          (arg ''failed, expected object, host/scheme ID %1''
                             (decimal qt (unat hostSchemeId))),
                        result))
           else hostSchemesLoop qt rest
                  (failing st0
                     (arg ''failed, invalid host/scheme ID %1'' hostSchemeIdString),
                   result))"

definition generateCustomer ::
  "Qt \<Rightarrow> Status \<Rightarrow> u32 \<Rightarrow> (string \<times> json) list \<Rightarrow> Customer option \<times> Status" where
  "generateCustomer qt st customerId jsonObject =
     (let idText = decimal qt (unat customerId)
      in if map_of jsonObject ''polling_interval'' \<noteq> None
            \<and> map_of jsonObject ''host_schemes'' \<noteq> None
         then (case map_of jsonObject ''host_schemes'' of
                 Some (JObject hostSchemesObject) \<Rightarrow>
                   (let pollingIntervalInt =
                          jsonToInt (- 1) (map_of jsonObject ''polling_interval'')
                    in if pollingIntervalInt \<ge> 20
                       then (let result =
                                   newCustomer customerId
                                     (jsonToBool False (map_of jsonObject ''ping''))
                                     (jsonToBool False (map_of jsonObject ''ssl_expiration''))
                                     (jsonToBool False (map_of jsonObject ''latency''))
                                     (jsonToBool False (map_of jsonObject ''multi_region''))
                                     (word_of_int pollingIntervalInt);
                                 (st1, customer) =
                                   hostSchemesLoop qt hostSchemesObject (st, result)
                             in (Some customer, st1))
                       else (None,
                             failing st
                               (arg ''failed, invalid polling interval, customer %1'' idText)))
               | other \<Rightarrow>
                   (None,
                    failing st
                      (arg ''failed, expected host/schemes object, customer %1'' idText)))
         else (None,
               failing st (arg ''failed, missing required fields, customer %1'' idText)))"

fun customersLoop ::
  "Qt \<Rightarrow> (string \<times> json) list \<Rightarrow> Status \<times> Customer list \<Rightarrow> Status \<times> Customer list" where
  "customersLoop qt [] (st, customers) = (st, customers)"
| "customersLoop qt ((customerIdString, customerDataValue) # rest) (st, customers) =
     (if \<not> success st then (st, customers)
      else
        let (customerId, ok) = (case toUInt qt customerIdString of
                                  Some n \<Rightarrow> (n, True) | None \<Rightarrow> (0, False));
            st0 = st\<lparr>success := ok\<rparr>
        in if success st0 \<and> customerId \<noteq> 0
           then (case customerDataValue of
                   JObject customerObject \<Rightarrow>
                     (let (customer, st1) = generateCustomer qt st0 customerId customerObject
                      in customersLoop qt rest
                           (st1, case customer of
                                   Some c \<Rightarrow> customers @ [c]
                                 | None \<Rightarrow> customers))
                 | other \<Rightarrow>
                     customersLoop qt rest
                       (failing st0
                          (arg ''Expected object for customer %1''
                             (decimal qt (unat customerId))),
                        customers))
           else customersLoop qt rest
                  (failing st0 (arg ''Invalid customer ID %1'' customerIdString),
                   customers))"

subsection \<open>The tracker and its workers\<close>

text \<open>
  An \<open>HttpServiceThread\<close> holds the hash of its customers and its service rate, a
  \<open>float\<close> of type \<open>'f\<close> that \<open>updateServiceMetrics\<close> recomputes from the thread's timers
  whenever a host/scheme joins or leaves; the parameter \<open>metrics\<close> gives the rate for a
  set of customers. The tracker is the list \<open>httpServiceThreads\<close>. The commands that
  \<open>addCustomer\<close> and \<open>removeCustomer\<close> send to the pinger are outside the model.
\<close>

record 'f HttpServiceThread =
  customersByCustomerId :: "(u32 \<times> Customer) list"
  currentHostSchemesPerSecond :: 'f

definition threadAddCustomer ::
  "((u32 \<times> Customer) list \<Rightarrow> 'f) \<Rightarrow> Customer \<Rightarrow> 'f HttpServiceThread \<Rightarrow> 'f HttpServiceThread" where
  "threadAddCustomer metrics customer t =
     (let customers = hashInsert (currentCustomerId customer) customer (customersByCustomerId t)
      in t\<lparr>customersByCustomerId := customers,
           currentHostSchemesPerSecond := metrics customers\<rparr>)"

definition threadRemoveCustomer ::
  "((u32 \<times> Customer) list \<Rightarrow> 'f) \<Rightarrow> u32 \<Rightarrow> 'f HttpServiceThread
     \<Rightarrow> bool \<times> 'f HttpServiceThread" where
  "threadRemoveCustomer metrics customerId t =
     (if map_of (customersByCustomerId t) customerId \<noteq> None
      then (let customers = filter (\<lambda>entry. fst entry \<noteq> customerId) (customersByCustomerId t)
            in (True, t\<lparr>customersByCustomerId := customers,
                        currentHostSchemesPerSecond := metrics customers\<rparr>))
      else (False, t))"

text \<open>
  \<open>ServiceThreadTracker::addCustomer\<close>: the scan for the thread with the least service
  rate starts from thread 0 and moves on a strictly smaller rate only.
\<close>

fun leastLoaded :: "nat \<Rightarrow> 'f::linorder \<Rightarrow> nat \<Rightarrow> 'f HttpServiceThread list \<Rightarrow> nat" where
  "leastLoaded best bestRate i [] = best"
| "leastLoaded best bestRate i (t # ts) =
     (if currentHostSchemesPerSecond t < bestRate
      then leastLoaded i (currentHostSchemesPerSecond t) (i + 1) ts
      else leastLoaded best bestRate (i + 1) ts)"

definition addCustomer ::
  "((u32 \<times> Customer) list \<Rightarrow> 'f) \<Rightarrow> Customer \<Rightarrow> ('f::linorder) HttpServiceThread list
     \<Rightarrow> fault + 'f HttpServiceThread list" where
  "addCustomer metrics customer httpServiceThreads =
     (case httpServiceThreads of
        [] \<Rightarrow> Inl BadPointer
      | first # others \<Rightarrow>
          let best = leastLoaded 0 (currentHostSchemesPerSecond first) 1 others
          in if best \<ge> length httpServiceThreads then Inl BadPointer
             else Inr (httpServiceThreads
                         [best := threadAddCustomer metrics customer
                                    (httpServiceThreads ! best)]))"

fun removeCustomer ::
  "((u32 \<times> Customer) list \<Rightarrow> 'f) \<Rightarrow> u32 \<Rightarrow> 'f HttpServiceThread list
     \<Rightarrow> bool \<times> 'f HttpServiceThread list" where
  "removeCustomer metrics customerId [] = (False, [])"
| "removeCustomer metrics customerId (t # ts) =
     (case threadRemoveCustomer metrics customerId t of
        (True, t') \<Rightarrow> (True, t' # ts)
      | (False, t') \<Rightarrow>
          (let (removed, ts') = removeCustomer metrics customerId ts
           in (removed, t' # ts')))"

text \<open>
  \<open>CustomerAdd::processAuthenticatedRequest\<close>. When \<open>success\<close> holds after the loop, every
  customer that was built replaces the customer of the same id; otherwise the customers
  that were built are deleted. The response carries \<open>statusString\<close>.
\<close>

fun installCustomers ::
  "((u32 \<times> Customer) list \<Rightarrow> 'f) \<Rightarrow> Customer list \<Rightarrow> ('f::linorder) HttpServiceThread list
     \<Rightarrow> fault + 'f HttpServiceThread list" where
  "installCustomers metrics [] tracker = Inr tracker"
| "installCustomers metrics (customer # rest) tracker =
     (case addCustomer metrics customer
             (snd (removeCustomer metrics (currentCustomerId customer) tracker)) of
        Inl f \<Rightarrow> Inl f
      | Inr tracker' \<Rightarrow> installCustomers metrics rest tracker')"

datatype Response = BadRequest | JsonResponse "(string \<times> json) list"

definition processAuthenticatedRequest ::
  "Qt \<Rightarrow> ((u32 \<times> Customer) list \<Rightarrow> 'f) \<Rightarrow> json \<Rightarrow> ('f::linorder) HttpServiceThread list
     \<Rightarrow> fault + Response \<times> 'f HttpServiceThread list" where
  "processAuthenticatedRequest qt metrics request tracker =
     (case request of
        JObject requestObject \<Rightarrow>
          (let (st, customers) =
                 customersLoop qt requestObject (\<lparr>success = True, statusString = ''OK''\<rparr>, [])
           in case (if success st then installCustomers metrics customers tracker
                    else Inr tracker) of
                Inl f \<Rightarrow> Inl f
              | Inr tracker' \<Rightarrow>
                  Inr (JsonResponse [(''status'', JString (statusString st))], tracker'))
      | other \<Rightarrow> Inr (BadRequest, tracker))"

subsection \<open>A request for the examples\<close>

text \<open>
  An instance of \<open>Qt\<close> that agrees with the library on the strings of the example: keys
  that are plain decimal numbers, words that are already trimmed and in lower case, a
  non-empty URL. (It decodes no base64 text but the empty one; the example has none.)
  The request adds customer 1 with one host/scheme and one monitor whose \<open>uri\<close> is the
  number 5, not a string, and whose \<open>method\<close> is \<open>"get"\<close>. \<open>installedCustomer\<close> is the
  customer that the handler builds from it, whose monitor has the empty path.
\<close>

function decimalText :: "nat \<Rightarrow> string" where
  "decimalText n =
     (if n < 10 then [''0123456789'' ! n]
      else decimalText (n div 10) @ [''0123456789'' ! (n mod 10)])"
  by pat_completeness auto
termination
  by (relation "measure id") auto

fun digitsValue :: "string \<Rightarrow> nat \<Rightarrow> nat option" where
  "digitsValue [] acc = Some acc"
| "digitsValue (c # cs) acc =
     (if 48 \<le> (of_char c :: nat) \<and> (of_char c :: nat) \<le> 57
      then digitsValue cs (10 * acc + (of_char c - 48))
      else None)"

definition plainToUInt :: "string \<Rightarrow> u32 option" where
  "plainToUInt str =
     (if str = [] then None
      else case digitsValue str 0 of
             Some n \<Rightarrow> if n < 2 ^ 32 then Some (of_nat n) else None
           | None \<Rightarrow> None)"

definition plainQt :: Qt where
  "plainQt = \<lparr>toUInt = plainToUInt,
              fromBase64Encoding = (\<lambda>encoded. if encoded = [] then Some [] else None),
              urlIsValid = (\<lambda>url. url \<noteq> []),
              trimmedToLower = (\<lambda>str. str),
              decimal = decimalText\<rparr>"

definition maskedMonitor :: json where
  "maskedMonitor = JObject [(''method'', JString ''get''), (''uri'', JNumber 5)]"

definition maskedPayload :: json where
  "maskedPayload =
     JObject [(''1'', JObject
       [(''host_schemes'', JObject
          [(''1'', JObject [(''monitors'', JObject [(''1'', maskedMonitor)]),
                           (''url'', JString ''http://example.com'')])]),
        (''polling_interval'', JNumber 20)])]"

definition installedCustomer :: Customer where
  "installedCustomer =
     addHostScheme
       (addNewMonitor (newMonitor 1 [] GET NO_CHECK [] TEXT [] [])
          (newWorld (newHostScheme 1 ''http://example.com'') False))
       (newCustomer 1 False False False False 20)"

definition idleTracker :: "nat HttpServiceThread list" where
  "idleTracker = [\<lparr>customersByCustomerId = [], currentHostSchemesPerSecond = 0\<rparr>]"

section \<open>Well-formed worlds and example worlds\<close>

text \<open>
  Well-formedness of the suspect set and its iterator: the set has no duplicates, every
  pointer in it is a monitor object, and the iterator is at an element of the set, or at
  \<open>end()\<close> when the set is empty.
\<close>

definition wellFormed :: "World \<Rightarrow> bool" where
  "wellFormed w =
     (distinct (nonResponsiveMonitors (hostScheme w))
      \<and> list_all (\<lambda>p. p < length (monitorObjects w)) (nonResponsiveMonitors (hostScheme w))
      \<and> (case nonResponsiveMonitorsIterator (hostScheme w) of
            None \<Rightarrow> nonResponsiveMonitors (hostScheme w) = []
          | Some x \<Rightarrow> x \<in> set (nonResponsiveMonitors (hostScheme w))))"

text \<open>
  Concrete monitors and worlds for the examples. \<open>keywordMonitor\<close> checks for the keywords
  \<open>"b"\<close> and \<open>"a"\<close>, in this order. \<open>emptyWorld\<close> is a host/scheme that was created with no
  monitor. The other worlds follow one monitor through its life: \<open>added\<close> after
  \<open>addMonitor\<close>, \<open>probing\<close> after the first tick, \<open>recovered\<close> after the reply, and
  \<open>probingAgain\<close> after the next tick, with the monitor \<open>WORKING\<close> and a request in flight.
\<close>

definition keywordMonitor :: Monitor where
  "keywordMonitor = newMonitor 1 ''/'' GET ALL_KEYWORDS [[98], [97]] TEXT [] []"

definition emptyWorld :: World where
  "emptyWorld = newWorld (newHostScheme 1 ''http://example.com'') True"

definition probe :: Monitor where
  "probe = newMonitor 7 ''/'' GET ANY_KEYWORDS [] TEXT [] []"

definition plainLibrary :: Library where
  "plainLibrary = \<lparr>sha256 = (\<lambda>state. state), smartHash = (\<lambda>receivedData idBytes. receivedData),
                    fromUtf8 = (\<lambda>keyword. [])\<rparr>"

definition added :: World where
  "added = emptyWorld
     \<lparr>monitorObjects := [probe],
      hostScheme := (hostScheme emptyWorld)
        \<lparr>monitorsByMonitorId := [(7, 0)], monitorIterator := Some 7,
         nonResponsiveMonitors := [0], nonResponsiveMonitorsIterator := Some 0\<rparr>\<rparr>"

definition probing :: World where
  "probing = added
     \<lparr>monitorObjects := [probe\<lparr>startTimestamp := 100, pendingReply := Some 0\<rparr>],
      dispatched := [(0, buildRequest [] probe)], nextReply := 1\<rparr>"

definition recovered :: World where
  "recovered = probing
     \<lparr>monitorObjects := [probe\<lparr>startTimestamp := 100, currentMonitorStatus := WORKING\<rparr>],
      hostScheme := (hostScheme probing)
        \<lparr>nonResponsiveMonitors := [], nonResponsiveMonitorsIterator := None\<rparr>,
      reportedEvents := [\<lparr>eventMonitorId = 7, eventTimestamp = 101, eventType = WORKING_EVENT,
                          eventMonitorStatus = UNKNOWN, eventHash = [], eventMessage = []\<rparr>],
      recordedLatencies := [(7, 100, 50000)]\<rparr>"

definition probingAgain :: World where
  "probingAgain = recovered
     \<lparr>monitorObjects := [probe\<lparr>startTimestamp := 120, currentMonitorStatus := WORKING,
                               pendingReply := Some 1\<rparr>],
      dispatched := [(0, buildRequest [] probe), (0, buildRequest [] probe)],
      nextReply := 2\<rparr>"

section \<open>Theorems\<close>

subsection \<open>The timing cycle\<close>

lemma scheduleNextHostScheme_start:
  "scheduleNextHostScheme f g now t = Inr t'
     \<Longrightarrow> pollingCycleStartTime t' = pollingCycleStartTime t"
  by (auto simp: scheduleNextHostScheme_def Let_def split: if_splits)

lemma scheduleNextHostScheme_returns:
  "hostSchemeIterator t < length (hostSchemesByTimeOrder t)
     \<Longrightarrow> \<exists>t'. scheduleNextHostScheme f g now t = Inr t'"
  by (simp add: scheduleNextHostScheme_def Let_def)

text \<open>
  C5, as the code has it. On a wheel with a non-zero period and at least one host/scheme,
  restarting the cycle returns, and the stored start of the cycle is
  \<open>T * (floor(now / T) + 1) + region_offset\<close>: the quotient is the truncating integer
  division, not the ceiling. The equation holds on 64-bit words, and on natural numbers
  whenever the result fits in 64 bits.
\<close>

theorem C5_restart_cycle_start:
  assumes "currentPeriodMilliseconds t \<noteq> 0" and "hostSchemesByTimeOrder t \<noteq> []"
  shows "\<exists>t'. restartTimingCycle f g now later t = Inr t'
           \<and> pollingCycleStartTime t'
               = currentPeriodMilliseconds t * (now div currentPeriodMilliseconds t + 1)
                 + regionTimeOffsetMilliseconds t
           \<and> (unat (currentPeriodMilliseconds t)
                 * (unat now div unat (currentPeriodMilliseconds t) + 1)
               + unat (regionTimeOffsetMilliseconds t) < 2 ^ 64
              \<longrightarrow> unat (pollingCycleStartTime t')
                  = unat (currentPeriodMilliseconds t)
                      * (unat now div unat (currentPeriodMilliseconds t) + 1)
                    + unat (regionTimeOffsetMilliseconds t))"
proof -
  let ?T = "currentPeriodMilliseconds t"
  let ?off = "regionTimeOffsetMilliseconds t"
  let ?t1 = "t\<lparr>hostSchemeIterator := 0,
               pollingCycleStartTime := ?T * (now div ?T + 1) + ?off\<rparr>"
  have "hostSchemeIterator ?t1 < length (hostSchemesByTimeOrder ?t1)"
    using assms(2) by simp
  then obtain t' where t': "scheduleNextHostScheme f g later ?t1 = Inr t'"
    using scheduleNextHostScheme_returns by blast
  have run: "restartTimingCycle f g now later t = Inr t'"
    using assms(1) t' by (simp add: restartTimingCycle_def Let_def)
  have start: "pollingCycleStartTime t' = ?T * (now div ?T + 1) + ?off"
    using scheduleNextHostScheme_start [OF t'] by simp
  have nat_reading:
    "unat (?T * (now div ?T + 1) + ?off) = unat ?T * (unat now div unat ?T + 1) + unat ?off"
    if fits: "unat ?T * (unat now div unat ?T + 1) + unat ?off < 2 ^ 64"
  proof -
    have q: "unat (now div ?T) = unat now div unat ?T"
      by (simp add: unat_div)
    have "unat now div unat ?T + 1 < 2 ^ 64"
    proof -
      have "0 < unat ?T" using assms(1) by (simp add: unat_gt_0)
      then have "unat now div unat ?T + 1 \<le> unat ?T * (unat now div unat ?T + 1)"
        by (cases "unat ?T") simp_all
      with fits show ?thesis by linarith
    qed
    then have q1: "unat (now div ?T + 1) = unat now div unat ?T + 1"
      using q by (simp add: unat_word_ariths)
    have "unat ?T * (unat now div unat ?T + 1) < 2 ^ 64"
      using fits by linarith
    then have m: "unat (?T * (now div ?T + 1)) = unat ?T * (unat now div unat ?T + 1)"
      using q1 by (simp add: unat_word_ariths)
    show ?thesis
      using m fits by (simp add: unat_word_ariths)
  qed
  show ?thesis
    using run start nat_reading by auto
qed

theorem C5_restart_cycle_start_witness:
  "\<exists>t'. restartTimingCycle (\<lambda>T key. 0) (\<lambda>s n. ()) 30000 30000 wheel20 = Inr t'
         \<and> pollingCycleStartTime t' = 40000"
proof -
  have "currentPeriodMilliseconds wheel20 \<noteq> 0" "hostSchemesByTimeOrder wheel20 \<noteq> []"
    by (simp_all add: wheel20_def)
  from C5_restart_cycle_start [OF this, of "\<lambda>T key. 0" "\<lambda>s n. ()" 30000 30000]
  show ?thesis
    by (auto simp: wheel20_def)
qed

text \<open>
  C5 as the specification states it fails: at \<open>T = 20000\<close>, \<open>now = 30000\<close> and no region
  offset the code stores 40000, while the formula with the ceiling gives 60000.
\<close>

theorem C5_ceiling_counterexample:
  "map_sum id (\<lambda>t. unat (pollingCycleStartTime t))
     (restartTimingCycle (\<lambda>T key. 0) (\<lambda>s n. ()) 30000 30000 wheel20) = Inr 40000
   \<and> spec_cycle_start 20000 30000 0 = 60000"
  by (simp add: restartTimingCycle_def scheduleNextHostScheme_def wheel20_def Let_def
        spec_cycle_start_def)

subsection \<open>The latency batch\<close>

lemma length_le16 [simp]: "length (le16 w) = 2"
  by (simp add: le16_def)
lemma length_le32 [simp]: "length (le32 w) = 4"
  by (simp add: le32_def)

lemma length_entryBytes [simp]: "length (entryBytes e) = 12"
  by (simp add: entryBytes_def)

lemma header_sizes:
  "sizeof_Header = 64" "sizeof_Entry = 12" "length_spare = 5"
  "offset_identifier = 2" "offset_monitorsPerSecond = 50" "offset_cpuLoading = 54"
  "offset_memoryLoading = 56" "offset_serverStatusCode = 58" "offset_spare = 59"
  by (simp_all add: sizeof_Header_def sizeof_Entry_def length_spare_def offset_identifier_def
      offset_monitorsPerSecond_def offset_cpuLoading_def offset_memoryLoading_def
      offset_serverStatusCode_def offset_spare_def offset_version_def maximumIdentifierLength_def)

lemma configure_template:
  "headerTemplate configure = le16 0 @ replicate 48 0 @ replicate 14 0"
proof -
  have z: "replicate 64 (0::u8) = replicate 2 0 @ replicate 48 0 @ replicate 14 0"
    by (simp add: replicate_add [symmetric])
  show ?thesis
    unfolding configure_def header_sizes offset_version_def z
    by (simp add: store_def)
qed

lemma setServerIdentifier_template:
  assumes "length (headerTemplate s) = sizeof_Header"
  shows "headerTemplate (setServerIdentifier raw s)
     = take 2 (headerTemplate s) @ (take 48 raw @ replicate (48 - length raw) 0)
       @ drop 50 (headerTemplate s)"
proof -
  have len: "length (headerTemplate s) = 64"
    using assms by (simp add: header_sizes)
  show ?thesis
  proof (cases "length raw \<ge> 48")
    case True
    then show ?thesis
      unfolding setServerIdentifier_def Let_def header_sizes maximumIdentifierLength_def
      using len by (auto simp: store_def)
  next
    case False
    then show ?thesis
      unfolding setServerIdentifier_def Let_def header_sizes maximumIdentifierLength_def
      using len by (simp add: store_def numeral_2_eq_2)
  qed
qed

lemma setServerIdentifier_fields:
  "latencyEntryList (setServerIdentifier raw s) = latencyEntryList s"
  "inFlightLatencyEntryList (setServerIdentifier raw s) = inFlightLatencyEntryList s"
  "reportTimer (setServerIdentifier raw s) = reportTimer s"
  "retryTimer (setServerIdentifier raw s) = retryTimer s"
  "posted (setServerIdentifier raw s) = posted s"
  by (simp_all add: setServerIdentifier_def Let_def)

lemma setServerIdentifier_length:
  "length (headerTemplate s) = sizeof_Header \<Longrightarrow>
   length (headerTemplate (setServerIdentifier raw s)) = sizeof_Header"
  by (simp add: setServerIdentifier_template header_sizes)

lemma setServerIdentifier_again:
  assumes "length (headerTemplate s) = sizeof_Header"
  shows "headerTemplate (setServerIdentifier raw (setServerIdentifier raw s))
     = headerTemplate (setServerIdentifier raw s)"
proof -
  have len: "length (headerTemplate s) = 64"
    using assms by (simp add: header_sizes)
  show ?thesis
    unfolding setServerIdentifier_template [OF setServerIdentifier_length [OF assms]]
    unfolding setServerIdentifier_template [OF assms]
    using len by simp
qed

lemma identifiers_fields:
  "latencyEntryList (fold setServerIdentifier ids s) = latencyEntryList s"
  "inFlightLatencyEntryList (fold setServerIdentifier ids s) = inFlightLatencyEntryList s"
  "reportTimer (fold setServerIdentifier ids s) = reportTimer s"
  "retryTimer (fold setServerIdentifier ids s) = retryTimer s"
  "posted (fold setServerIdentifier ids s) = posted s"
  by (induction ids arbitrary: s) (simp_all add: setServerIdentifier_fields)

lemma identifiers_template:
  "length (headerTemplate s) = sizeof_Header \<Longrightarrow> take 2 (headerTemplate s) = le16 0 \<Longrightarrow>
   drop 50 (headerTemplate s) = replicate 14 0 \<Longrightarrow>
   length (headerTemplate (fold setServerIdentifier ids s)) = sizeof_Header
   \<and> take 2 (headerTemplate (fold setServerIdentifier ids s)) = le16 0
   \<and> drop 50 (headerTemplate (fold setServerIdentifier ids s)) = replicate 14 0"
proof (induction ids arbitrary: s)
  case Nil
  then show ?case by simp
next
  case (Cons raw ids)
  have len: "length (headerTemplate s) = 64"
    using Cons.prems(1) by (simp add: header_sizes)
  have a: "length (headerTemplate (setServerIdentifier raw s)) = sizeof_Header"
    using Cons.prems(1) by (rule setServerIdentifier_length)
  have b: "take 2 (headerTemplate (setServerIdentifier raw s)) = le16 0"
    unfolding setServerIdentifier_template [OF Cons.prems(1)]
    using len Cons.prems(2) by simp
  have c: "drop 50 (headerTemplate (setServerIdentifier raw s)) = replicate 14 0"
    unfolding setServerIdentifier_template [OF Cons.prems(1)]
    using len Cons.prems(3) by simp
  from Cons.IH [OF a b c] show ?case by simp
qed

lemma template_eq:
  "headerTemplate (setServerIdentifier raw (fold setServerIdentifier earlier configure))
     = le16 0 @ (take 48 raw @ replicate (48 - length raw) 0) @ replicate 14 0"
proof -
  have "length (headerTemplate configure) = sizeof_Header"
    "take 2 (headerTemplate configure) = le16 0"
    "drop 50 (headerTemplate configure) = replicate 14 0"
    by (simp_all add: configure_template header_sizes)
  from identifiers_template [OF this, of earlier] show ?thesis
    by (simp add: setServerIdentifier_template)
qed

lemma writeEntries_eq:
  "length a = off \<Longrightarrow>
   writeEntries off es (a @ replicate (12 * length es) 0) = a @ concat (map entryBytes es)"
proof (induction es arbitrary: a off)
  case Nil
  then show ?case by simp
next
  case (Cons e es)
  have split: "replicate (12 * length (e # es)) (0::u8)
      = replicate 4 0 @ replicate 4 0 @ replicate 4 0 @ replicate (12 * length es) 0"
    by (simp add: replicate_add [symmetric])
  have step: "store (off + 8) (le32 (entryLatencyMicroseconds e))
         (store (off + 4) (le32 (entryTimestamp e))
           (store off (le32 (entryMonitorId e))
              (a @ replicate 4 0 @ replicate 4 0 @ replicate 4 0 @ replicate (12 * length es) 0)))
      = (a @ entryBytes e) @ replicate (12 * length es) 0"
    using Cons.prems by (simp add: store_def entryBytes_def)
  have "length (a @ entryBytes e) = off + sizeof_Entry"
    using Cons.prems by (simp add: header_sizes)
  from Cons.IH [OF this] show ?case
    unfolding writeEntries.simps split step by simp
qed

text \<open>The message built over any 64-byte template.\<close>

lemma buildMessage_layout:
  assumes "length template = sizeof_Header"
  shows "buildMessage template r es
     = take 50 template @ le32 (monitorsPerSecond r) @ le16 (cpuLoading r)
       @ le16 (memoryLoading r) @ [serverStatusCode r] @ drop 59 template
       @ concat (map entryBytes es)"
proof -
  let ?tail = "replicate (12 * length es) (0::u8)"
  have len: "length template = 64" using assms by (simp add: header_sizes)
  have z: "replicate (64 + length es * 12) (0::u8) = replicate 64 0 @ ?tail"
    by (simp add: replicate_add [symmetric] mult.commute)
  have hd: "store offset_serverStatusCode [serverStatusCode r]
       (store offset_memoryLoading (le16 (memoryLoading r))
         (store offset_cpuLoading (le16 (cpuLoading r))
           (store offset_monitorsPerSecond (le32 (monitorsPerSecond r))
             (store 0 (take sizeof_Header template)
                (replicate (sizeof_Header + length es * sizeof_Entry) 0)))))
     = (take 50 template @ le32 (monitorsPerSecond r) @ le16 (cpuLoading r)
       @ le16 (memoryLoading r) @ [serverStatusCode r] @ drop 59 template) @ ?tail"
    unfolding header_sizes z
    using len by (simp add: store_def)
  have l2: "length (take 50 template @ le32 (monitorsPerSecond r) @ le16 (cpuLoading r)
       @ le16 (memoryLoading r) @ [serverStatusCode r] @ drop 59 template) = sizeof_Header"
    using len by (simp add: header_sizes)
  show ?thesis
    unfolding buildMessage_def Let_def hd
    using writeEntries_eq [OF l2, of es] by simp
qed

lemma length_buildMessage:
  assumes "length template = sizeof_Header"
  shows "length (buildMessage template r es) = 64 + 12 * length es"
proof -
  have "length (concat (map entryBytes es)) = 12 * length es"
    by (induction es) simp_all
  then show ?thesis
    using assms by (simp add: buildMessage_layout [OF assms] header_sizes)
qed

lemma drop_buildMessage:
  assumes "length template = sizeof_Header"
  shows "drop sizeof_Header (buildMessage template r es) = concat (map entryBytes es)"
  using assms by (simp add: buildMessage_layout [OF assms] header_sizes)

lemma zoran_word:
  "(ucast (t - 1609484400 :: u64) :: u32) = word_of_int (zoran (uint t))"
proof -
  have m: "take_bit 32 (k mod 2 ^ 64) = take_bit 32 k" for k :: int
    by (simp add: take_bit_eq_mod mod_mod_cancel)
  have w: "(word_of_int (k mod 2 ^ 64) :: u32) = word_of_int k" for k
    unfolding word_of_int_eq_iff using m [of k] by simp
  have "(ucast (t - 1609484400 :: u64) :: u32) = word_of_int (uint (t - 1609484400))"
    by transfer simp
  also have "uint (t - 1609484400) = (uint t - 1609484400) mod 2 ^ 64"
    by (simp add: uint_word_ariths)
  finally show ?thesis
    unfolding zoran_def w .
qed

lemma toUnsigned32_floor:
  "0 \<le> x \<Longrightarrow> x < 2 ^ 32 \<Longrightarrow> toUnsigned32 x = Inr (nat \<lfloor>x\<rfloor>)"
  by (simp add: toUnsigned32_def floor_less_iff)

lemma recordLatency_list:
  "latencyEntryList (recordLatency i t l s) = latencyEntryList s @ [newLatencyEntry i t l]"
  by (simp add: recordLatency_def Let_def triggerReporting_def)

lemma recordSamples_list:
  "latencyEntryList (recordSamples samples s)
     = latencyEntryList s @ map (\<lambda>(i, t, l). newLatencyEntry i t l) samples"
  unfolding recordSamples_def
  by (induction samples arbitrary: s) (auto simp: recordLatency_list)

lemma newLatencyEntry_bytes:
  "entryBytes (newLatencyEntry i t l) = spec_entry i (word_of_int (zoran (uint t))) l"
  by (simp add: entryBytes_def newLatencyEntry_def spec_entry_def startOfZoranEpoch_def
      zoran_word)

lemma recordLatency_fields:
  "headerTemplate (recordLatency i t l s) = headerTemplate s"
  "inFlightLatencyEntryList (recordLatency i t l s) = inFlightLatencyEntryList s"
  "posted (recordLatency i t l s) = posted s"
  by (simp_all add: recordLatency_def Let_def triggerReporting_def)

lemma recordSamples_fields:
  "headerTemplate (recordSamples samples s) = headerTemplate s"
  "inFlightLatencyEntryList (recordSamples samples s) = inFlightLatencyEntryList s"
  "posted (recordSamples samples s) = posted s"
  unfolding recordSamples_def
  by (induction samples arbitrary: s) (auto simp: recordLatency_fields)

text \<open>The conversions of \<open>sendReport\<close> on measurements in their range.\<close>

lemma headerReadings_eq:
  assumes "0 \<le> trackerMonitorsPerSecond m" and "trackerMonitorsPerSecond m * 256 < 2 ^ 32"
    and "0 \<le> cpuUtilization m" and "cpuUtilization m * 4096 < 2 ^ 32"
    and "0 \<le> memoryUtilization m" and "memoryUtilization m * 65536 < 2 ^ 32"
  shows "headerReadings m
     = Inr \<lparr>monitorsPerSecond = of_nat (nat \<lfloor>trackerMonitorsPerSecond m * 256\<rfloor>),
            cpuLoading = of_nat (min 65535 (nat \<lfloor>cpuUtilization m * 4096\<rfloor>)),
            memoryLoading = of_nat (min 65535 (nat \<lfloor>memoryUtilization m * 65536\<rfloor>)),
            serverStatusCode = statusCode (trackerStatus m)\<rparr>"
proof -
  have a: "toUnsigned32 (trackerMonitorsPerSecond m * 256)
      = Inr (nat \<lfloor>trackerMonitorsPerSecond m * 256\<rfloor>)"
    using assms(1,2) by (intro toUnsigned32_floor) simp_all
  have b: "toUnsigned32 (cpuUtilization m * 4096) = Inr (nat \<lfloor>cpuUtilization m * 4096\<rfloor>)"
    using assms(3,4) by (intro toUnsigned32_floor) simp_all
  have c: "toUnsigned32 (memoryUtilization m * 65536)
      = Inr (nat \<lfloor>memoryUtilization m * 65536\<rfloor>)"
    using assms(5,6) by (intro toUnsigned32_floor) simp_all
  show ?thesis
    unfolding headerReadings_def a b c by simp
qed

lemma fixed_24_8_eq:
  assumes "0 \<le> x" and "x * 256 < 2 ^ 32"
  shows "(of_nat (nat \<lfloor>x * 256\<rfloor>) :: u32) = fixed_24_8 x"
    and "real (unat (of_nat (nat \<lfloor>x * 256\<rfloor>) :: u32)) / 256 \<le> x"
    and "x < (real (unat (of_nat (nat \<lfloor>x * 256\<rfloor>) :: u32)) + 1) / 256"
proof -
  have nonneg: "0 \<le> \<lfloor>x * 256\<rfloor>"
    using assms(1) by simp
  have small: "\<lfloor>x * 256\<rfloor> < 2 ^ 32"
    using assms(2) by (simp add: floor_less_iff)
  show "(of_nat (nat \<lfloor>x * 256\<rfloor>) :: u32) = fixed_24_8 x"
    using nonneg by (simp add: fixed_24_8_def)
  have "nat \<lfloor>x * 256\<rfloor> < 2 ^ 32"
    using nonneg small by (simp add: nat_less_iff)
  then have u: "unat (of_nat (nat \<lfloor>x * 256\<rfloor>) :: u32) = nat \<lfloor>x * 256\<rfloor>"
    by (simp add: unat_of_nat)
  have r: "real (nat \<lfloor>x * 256\<rfloor>) = of_int \<lfloor>x * 256\<rfloor>"
    using nonneg by simp
  have lo: "of_int \<lfloor>x * 256\<rfloor> \<le> x * 256"
    by (rule of_int_floor_le)
  have hi: "x * 256 < of_int \<lfloor>x * 256\<rfloor> + 1"
    by linarith
  show "real (unat (of_nat (nat \<lfloor>x * 256\<rfloor>) :: u32)) / 256 \<le> x"
    unfolding u r using lo by simp
  show "x < (real (unat (of_nat (nat \<lfloor>x * 256\<rfloor>) :: u32)) + 1) / 256"
    unfolding u r using hi by simp
qed

lemma zoran_in_range:
  assumes "1609484400 \<le> uint t" and "uint t < 1609484400 + 2 ^ 32"
  shows "uint (word_of_int (zoran (uint t)) :: u32) = uint t - 1609484400"
proof -
  have k: "uint (word_of_int k :: u32) = k" if "0 \<le> k" and "k < 2 ^ 32" for k
    using that by (simp add: uint_word_of_int)
  have "0 \<le> uint t - 1609484400" and "uint t - 1609484400 < 2 ^ 32"
    using assms by simp_all
  then show ?thesis
    unfolding zoran_def by (rule k)
qed

lemma payload_eq:
  "buildMessage
      (headerTemplate (setServerIdentifier identifier (fold setServerIdentifier earlier configure)))
      r (map (\<lambda>(i, t, l). newLatencyEntry i t l) samples)
     = le16 0 @ (take 48 identifier @ replicate (48 - length identifier) 0)
       @ le32 (monitorsPerSecond r) @ le16 (cpuLoading r) @ le16 (memoryLoading r)
       @ [serverStatusCode r] @ replicate 5 0
       @ concat (map (\<lambda>(i, t, l). spec_entry i (word_of_int (zoran (uint t))) l) samples)"
proof -
  have e: "concat (map entryBytes (map (\<lambda>(i, t, l). newLatencyEntry i t l) samples))
      = concat (map (\<lambda>(i, t, l). spec_entry i (word_of_int (zoran (uint t))) l) samples)"
    by (induction samples) (auto simp: newLatencyEntry_bytes)
  define pad where "pad = take 48 identifier @ replicate (48 - length identifier) (0::u8)"
  have lp: "length pad = 48"
    by (simp add: pad_def min_def)
  have tmpl: "headerTemplate
      (setServerIdentifier identifier (fold setServerIdentifier earlier configure))
        = le16 0 @ pad @ replicate 14 0"
    by (simp add: template_eq pad_def)
  have cut: "take 50 (le16 0 @ pad @ replicate 14 (0::u8)) = le16 0 @ pad"
    "drop 59 (le16 0 @ pad @ replicate 14 (0::u8)) = replicate 5 0"
    using lp by simp_all
  have "length (le16 0 @ pad @ replicate 14 (0::u8)) = sizeof_Header"
    using lp by (simp add: header_sizes)
  from buildMessage_layout [OF this, of r "map (\<lambda>(i, t, l). newLatencyEntry i t l) samples"]
  have "buildMessage (le16 0 @ pad @ replicate 14 0) r
      (map (\<lambda>(i, t, l). newLatencyEntry i t l) samples)
    = (le16 0 @ pad) @ le32 (monitorsPerSecond r) @ le16 (cpuLoading r)
      @ le16 (memoryLoading r) @ [serverStatusCode r] @ replicate 5 0
      @ concat (map (\<lambda>(i, t, l). spec_entry i (word_of_int (zoran (uint t))) l) samples)"
    unfolding cut e .
  then show ?thesis
    unfolding tmpl pad_def by simp
qed

lemma length_spec_payload:
  "length (spec_payload reserved identifier rate cpu memory code samples)
     = 59 + reserved + 12 * length samples"
proof -
  have "length (concat (map (\<lambda>(i, t, l). spec_entry i (word_of_int (zoran (uint t))) l) samples))
      = 12 * length samples"
    by (induction samples) (auto simp: spec_entry_def)
  then show ?thesis
    by (simp add: spec_payload_def spec_header_def)
qed

text \<open>
  C7, with the reserved bytes the code has. The aggregator is configured, the server
  identifier is set (after any earlier identifiers), and \<open>N\<close> samples are recorded. When
  the report timer fires under measurements that the conversions of \<open>sendReport\<close> can
  represent, the one body posted to \<open>/latency/record\<close> is the packed little-endian header
  (version 0, the identifier cut or zero-padded to 48 bytes, the service rate in unsigned
  24.8 fixed point, CPU loading, memory loading, status code, five reserved zero bytes)
  followed by one 12-byte entry per sample (monitor id, Unix seconds minus 1,609,484,400,
  latency in microseconds) in the order the samples were recorded; it is 64 + 12 * N bytes
  long. The service-rate field, read as a count of 1/256, is the rate rounded down; and
  the timestamp field is the difference itself for every Unix time from the epoch on that
  fits 32 bits.
\<close>

theorem C7_latency_payload_layout:
  assumes "0 \<le> trackerMonitorsPerSecond m" and "trackerMonitorsPerSecond m * 256 < 2 ^ 32"
    and "0 \<le> cpuUtilization m" and "cpuUtilization m * 4096 < 2 ^ 32"
    and "0 \<le> memoryUtilization m" and "memoryUtilization m * 65536 < 2 ^ 32"
  shows "\<exists>r. headerReadings m = Inr r
     \<and> posted (startReportingLatencyData r (recordSamples samples
          (setServerIdentifier identifier (fold setServerIdentifier earlier configure))))
         = [spec_payload 5 identifier (trackerMonitorsPerSecond m)
              (cpuLoading r) (memoryLoading r) (serverStatusCode r) samples]
     \<and> length (spec_payload 5 identifier (trackerMonitorsPerSecond m)
              (cpuLoading r) (memoryLoading r) (serverStatusCode r) samples)
         = 64 + 12 * length samples
     \<and> real (unat (monitorsPerSecond r)) / 256 \<le> trackerMonitorsPerSecond m
     \<and> trackerMonitorsPerSecond m < (real (unat (monitorsPerSecond r)) + 1) / 256
     \<and> (\<forall>t :: u64. 1609484400 \<le> uint t \<and> uint t < 1609484400 + 2 ^ 32 \<longrightarrow>
           uint (word_of_int (zoran (uint t)) :: u32) = uint t - 1609484400)"
proof -
  let ?s0 = "setServerIdentifier identifier (fold setServerIdentifier earlier configure)"
  let ?s1 = "recordSamples samples ?s0"
  define r where "r = \<lparr>monitorsPerSecond = of_nat (nat \<lfloor>trackerMonitorsPerSecond m * 256\<rfloor>),
            cpuLoading = of_nat (min 65535 (nat \<lfloor>cpuUtilization m * 4096\<rfloor>)),
            memoryLoading = of_nat (min 65535 (nat \<lfloor>memoryUtilization m * 65536\<rfloor>)),
            serverStatusCode = statusCode (trackerStatus m)\<rparr>"
  have h: "headerReadings m = Inr r"
    unfolding r_def using assms by (rule headerReadings_eq)
  have sel: "monitorsPerSecond r = of_nat (nat \<lfloor>trackerMonitorsPerSecond m * 256\<rfloor>)"
    by (simp add: r_def)
  have rate: "monitorsPerSecond r = fixed_24_8 (trackerMonitorsPerSecond m)"
    "real (unat (monitorsPerSecond r)) / 256 \<le> trackerMonitorsPerSecond m"
    "trackerMonitorsPerSecond m < (real (unat (monitorsPerSecond r)) + 1) / 256"
    unfolding sel by (rule fixed_24_8_eq [OF assms(1,2)])+
  have s0: "latencyEntryList ?s0 = []" "inFlightLatencyEntryList ?s0 = None" "posted ?s0 = []"
    by (simp_all add: setServerIdentifier_fields identifiers_fields configure_def)
  have s1: "latencyEntryList ?s1 = map (\<lambda>(i, t, l). newLatencyEntry i t l) samples"
    "inFlightLatencyEntryList ?s1 = None" "posted ?s1 = []"
    "headerTemplate ?s1 = headerTemplate ?s0"
    by (simp_all add: recordSamples_list recordSamples_fields s0)
  have "posted (startReportingLatencyData r ?s1)
      = [buildMessage (headerTemplate ?s0) r (map (\<lambda>(i, t, l). newLatencyEntry i t l) samples)]"
    by (simp add: startReportingLatencyData_def sendReport_def s1)
  also have "buildMessage (headerTemplate ?s0) r (map (\<lambda>(i, t, l). newLatencyEntry i t l) samples)
      = spec_payload 5 identifier (trackerMonitorsPerSecond m)
              (cpuLoading r) (memoryLoading r) (serverStatusCode r) samples"
    unfolding payload_eq spec_payload_def spec_header_def rate(1) by simp
  finally have p: "posted (startReportingLatencyData r ?s1)
      = [spec_payload 5 identifier (trackerMonitorsPerSecond m)
              (cpuLoading r) (memoryLoading r) (serverStatusCode r) samples]" .
  have z: "\<forall>t :: u64. 1609484400 \<le> uint t \<and> uint t < 1609484400 + 2 ^ 32 \<longrightarrow>
           uint (word_of_int (zoran (uint t)) :: u32) = uint t - 1609484400"
    using zoran_in_range by blast
  show ?thesis
    using h p rate(2,3) z by (intro exI [of _ r] conjI) (simp_all add: length_spec_payload)
qed

theorem C7_latency_payload_layout_witness:
  "posted (startReportingLatencyData
       \<lparr>monitorsPerSecond = 12, cpuLoading = 2048, memoryLoading = 16384, serverStatusCode = 1\<rparr>
       (recordSamples [(7, 1609484460, 250000)]
          (setServerIdentifier [65, 66] (setServerIdentifier [65, 66, 89, 90] configure))))
     = [[0, 0, 65, 66] @ replicate 46 0 @ [12, 0, 0, 0, 0, 8, 0, 64, 1] @ replicate 5 0
        @ [7, 0, 0, 0, 60, 0, 0, 0, 144, 208, 3, 0]]"
proof -
  let ?m = "\<lparr>trackerMonitorsPerSecond = 1 / 20, cpuUtilization = 1 / 2,
             memoryUtilization = 1 / 4, trackerStatus = ACTIVE\<rparr>"
  let ?r = "\<lparr>monitorsPerSecond = 12, cpuLoading = 2048, memoryLoading = 16384,
             serverStatusCode = 1\<rparr>"
  have "headerReadings ?m = Inr ?r"
    by (simp add: headerReadings_def toUnsigned32_def)
  with C7_latency_payload_layout
         [of ?m "[(7, 1609484460, 250000)]" "[65, 66]" "[[65, 66, 89, 90]]"]
  have "posted (startReportingLatencyData ?r
       (recordSamples [(7, 1609484460, 250000)]
          (setServerIdentifier [65, 66] (setServerIdentifier [65, 66, 89, 90] configure))))
     = [spec_payload 5 [65, 66] (1 / 20) 2048 16384 1 [(7, 1609484460, 250000)]]"
    by auto
  then show ?thesis
    by (simp add: spec_payload_def spec_header_def spec_entry_def fixed_24_8_def zoran_def
        le16_def le32_def)
qed

text \<open>
  C7 as stated, with three reserved bytes, fails: that layout is 62 bytes long for an
  empty batch, and the message of the code is 64.
\<close>

theorem C7_three_reserved_counterexample:
  "length (buildMessage (headerTemplate (setServerIdentifier [] configure)) idle []) = 64
   \<and> length (spec_payload 3 [] 0 0 0 1 []) = 62"
proof -
  have "length (headerTemplate (setServerIdentifier [] configure)) = sizeof_Header"
    by (simp add: setServerIdentifier_length configure_template header_sizes)
  from length_buildMessage [OF this] show ?thesis
    by (simp add: length_spec_payload)
qed

text \<open>
  C8, as the code has it. \<open>recordLatency\<close> appends the sample and touches nothing but the
  report timer. With no batch in flight, the timer is started with delay 0 when the list
  has reached 1000 entries, and otherwise started with 60000 ms unless it is already
  running. With a batch in flight the report timer is left as it is.
\<close>

theorem C8_recordLatency:
  "latencyEntryList (recordLatency i t l s) = latencyEntryList s @ [newLatencyEntry i t l]
   \<and> inFlightLatencyEntryList (recordLatency i t l s) = inFlightLatencyEntryList s
   \<and> retryTimer (recordLatency i t l s) = retryTimer s
   \<and> posted (recordLatency i t l s) = posted s
   \<and> reportTimer (recordLatency i t l s)
       = (if inFlightLatencyEntryList s = None
          then (if length (latencyEntryList s) + 1 \<ge> 1000 then Some 0
                else if reportTimer s = None then Some 60000
                else reportTimer s)
          else reportTimer s)"
  by (simp add: recordLatency_def Let_def triggerReporting_def
      maximumNumberPendingEntries_def maximumReportDelayMilliseconds_def)


lemma waiting_eq:
  "waiting = configure\<lparr>inFlightLatencyEntryList := Some [newLatencyEntry 1 1609484400 5],
       posted := [buildMessage (headerTemplate configure) idle [newLatencyEntry 1 1609484400 5]]\<rparr>"
  by (simp add: waiting_def reportTimerFires_def recordLatency_def Let_def triggerReporting_def
      configure_def startReportingLatencyData_def sendReport_def
      maximumNumberPendingEntries_def)

text \<open>
  C8 as stated fails while a batch is in flight: the report timer is not running, a
  sample is recorded, and the timer is still not running.
\<close>

theorem C8_in_flight_counterexample:
  "inFlightLatencyEntryList waiting = Some [newLatencyEntry 1 1609484400 5]
   \<and> reportTimer waiting = None
   \<and> reportTimer (recordLatency 2 1609484401 7 waiting) = None"
  by (simp add: waiting_eq recordLatency_def Let_def configure_def)

lemma recordLatency_in_flight:
  "inFlightLatencyEntryList s = Some b \<Longrightarrow>
   recordLatency i t l s = s\<lparr>latencyEntryList := latencyEntryList s @ [newLatencyEntry i t l]\<rparr>"
  by (simp add: recordLatency_def Let_def)

lemma recordSamples_in_flight:
  "inFlightLatencyEntryList s = Some b \<Longrightarrow>
   recordSamples samples s
     = s\<lparr>latencyEntryList :=
           latencyEntryList s @ map (\<lambda>(i, t, l). newLatencyEntry i t l) samples\<rparr>"
  unfolding recordSamples_def
proof (induction samples arbitrary: s)
  case Nil
  then show ?case by simp
next
  case (Cons x xs)
  obtain i t l where x: "x = (i, t, l)" by (cases x) auto
  have "inFlightLatencyEntryList (recordLatency i t l s) = Some b"
    using Cons.prems by (simp add: recordLatency_in_flight)
  from Cons.IH [OF this] show ?case
    using Cons.prems by (simp add: x recordLatency_in_flight)
qed

lemma setServerIdentifier_same_template:
  "headerTemplate s = headerTemplate s' \<Longrightarrow>
   headerTemplate (setServerIdentifier raw s) = headerTemplate (setServerIdentifier raw s')"
  by (simp add: setServerIdentifier_def Let_def)

lemma identifiers_same_template:
  "headerTemplate s = headerTemplate s' \<Longrightarrow>
   headerTemplate (fold setServerIdentifier ids s) = headerTemplate (fold setServerIdentifier ids s')"
proof (induction ids arbitrary: s s')
  case Nil
  then show ?case by simp
next
  case (Cons raw ids)
  from Cons.IH [OF setServerIdentifier_same_template [OF Cons.prems, of raw]]
  show ?case by simp
qed

lemma identifiers_length:
  "length (headerTemplate s) = sizeof_Header \<Longrightarrow>
   length (headerTemplate (fold setServerIdentifier ids s)) = sizeof_Header"
  by (induction ids arbitrary: s) (simp_all add: setServerIdentifier_length)

lemma identifiers_unchanged:
  "headerTemplate (setServerIdentifier raw s) = headerTemplate s \<Longrightarrow>
   set ids \<subseteq> {raw} \<Longrightarrow>
   headerTemplate (fold setServerIdentifier ids s) = headerTemplate s"
proof (induction ids arbitrary: s)
  case Nil
  then show ?case by simp
next
  case (Cons a ids)
  have a: "a = raw" and rest: "set ids \<subseteq> {raw}"
    using Cons.prems(2) by simp_all
  have "headerTemplate (setServerIdentifier raw (setServerIdentifier raw s))
      = headerTemplate (setServerIdentifier raw s)"
    using setServerIdentifier_same_template [OF Cons.prems(1), of raw] by simp
  from Cons.IH [OF this rest] show ?case
    by (simp add: a Cons.prems(1))
qed

lemma retryRound_eq:
  assumes "inFlightLatencyEntryList s = Some b"
  shows "posted (retryRound (samples, ids, r) s)
       = posted s @ [buildMessage (headerTemplate (fold setServerIdentifier ids s)) r b]"
    and "inFlightLatencyEntryList (retryRound (samples, ids, r) s) = Some b"
    and "headerTemplate (retryRound (samples, ids, r) s)
       = headerTemplate (fold setServerIdentifier ids s)"
proof -
  let ?s1 = "recordSamples samples (processRequestFailed s)"
  let ?s2 = "fold setServerIdentifier ids ?s1"
  have s1: "inFlightLatencyEntryList ?s1 = Some b" "posted ?s1 = posted s"
    "headerTemplate ?s1 = headerTemplate s" "retryTimer ?s1 = Some 60000"
    using assms
    by (simp_all add: recordSamples_fields recordSamples_in_flight [of _ b]
        processRequestFailed_def triggerRetry_def retryDelaySeconds_def)
  have s2: "inFlightLatencyEntryList ?s2 = Some b" "posted ?s2 = posted s"
    "retryTimer ?s2 = Some 60000"
    "headerTemplate ?s2 = headerTemplate (fold setServerIdentifier ids s)"
    using s1 identifiers_same_template [OF s1(3), of ids]
    by (simp_all add: identifiers_fields)
  show "posted (retryRound (samples, ids, r) s)
       = posted s @ [buildMessage (headerTemplate (fold setServerIdentifier ids s)) r b]"
    by (simp add: retryRound_def retryTimerFires_def startRetry_def sendReport_def s2)
  show "inFlightLatencyEntryList (retryRound (samples, ids, r) s) = Some b"
    by (simp add: retryRound_def retryTimerFires_def startRetry_def sendReport_def s2)
  show "headerTemplate (retryRound (samples, ids, r) s)
       = headerTemplate (fold setServerIdentifier ids s)"
    by (simp add: retryRound_def retryTimerFires_def startRetry_def sendReport_def s2)
qed

text \<open>Every retry posts one message, built from the batch in flight.\<close>

lemma retryRounds_fold:
  "inFlightLatencyEntryList s = Some b \<Longrightarrow> length (headerTemplate s) = sizeof_Header \<Longrightarrow>
   \<exists>retries. posted (fold retryRound rounds s) = posted s @ retries
     \<and> length retries = length rounds
     \<and> (\<forall>msg \<in> set retries. drop sizeof_Header msg = concat (map entryBytes b)
           \<and> length msg = 64 + 12 * length b)
     \<and> inFlightLatencyEntryList (fold retryRound rounds s) = Some b"
proof (induction rounds arbitrary: s)
  case Nil
  then show ?case by simp
next
  case (Cons step rounds)
  obtain samples ids r where step: "step = (samples, ids, r)"
    by (cases step) auto
  let ?t = "headerTemplate (fold setServerIdentifier ids s)"
  let ?s' = "retryRound step s"
  have t: "length ?t = sizeof_Header"
    using Cons.prems(2) by (rule identifiers_length)
  have a: "inFlightLatencyEntryList ?s' = Some b"
    and p: "posted ?s' = posted s @ [buildMessage ?t r b]"
    and l: "length (headerTemplate ?s') = sizeof_Header"
    using retryRound_eq [OF Cons.prems(1), of samples ids r] t by (simp_all add: step)
  from Cons.IH [OF a l] obtain retries where
    r: "posted (fold retryRound rounds ?s') = posted ?s' @ retries"
      "length retries = length rounds"
      "\<forall>msg \<in> set retries. drop sizeof_Header msg = concat (map entryBytes b)
           \<and> length msg = 64 + 12 * length b"
      "inFlightLatencyEntryList (fold retryRound rounds ?s') = Some b"
    by blast
  have m: "drop sizeof_Header (buildMessage ?t r b) = concat (map entryBytes b)"
    "length (buildMessage ?t r b) = 64 + 12 * length b"
    using t by (simp_all add: drop_buildMessage length_buildMessage)
  show ?case
    using r m by (intro exI [of _ "buildMessage ?t r b # retries"]) (simp add: p)
qed

text \<open>
  The retries repeat the message \<open>msg\<close> when every round has the readings of \<open>msg\<close> and
  loads no identifier but the one that the template of \<open>msg\<close> holds.
\<close>

lemma retryRounds_same:
  "inFlightLatencyEntryList s = Some b \<Longrightarrow>
   headerTemplate (setServerIdentifier raw s) = headerTemplate s \<Longrightarrow>
   \<forall>(samples, ids, r) \<in> set rounds. set ids \<subseteq> {raw} \<and> r = r0 \<Longrightarrow>
   posted (fold retryRound rounds s)
     = posted s @ replicate (length rounds) (buildMessage (headerTemplate s) r0 b)"
proof (induction rounds arbitrary: s)
  case Nil
  then show ?case by simp
next
  case (Cons step rounds)
  obtain samples ids r where step: "step = (samples, ids, r)"
    by (cases step) auto
  let ?s' = "retryRound step s"
  have c: "set ids \<subseteq> {raw}" and r: "r = r0"
    using Cons.prems(3) by (simp_all add: step)
  have same: "headerTemplate (fold setServerIdentifier ids s) = headerTemplate s"
    using Cons.prems(2) c by (rule identifiers_unchanged)
  have a: "inFlightLatencyEntryList ?s' = Some b"
    and p: "posted ?s' = posted s @ [buildMessage (headerTemplate s) r0 b]"
    and t: "headerTemplate ?s' = headerTemplate s"
    using retryRound_eq [OF Cons.prems(1), of samples ids r] same r by (simp_all add: step)
  have i: "headerTemplate (setServerIdentifier raw ?s') = headerTemplate ?s'"
    using setServerIdentifier_same_template [OF t, of raw] Cons.prems(2) t by simp
  have rest: "\<forall>(samples, ids, r) \<in> set rounds. set ids \<subseteq> {raw} \<and> r = r0"
    using Cons.prems(3) by simp
  from Cons.IH [OF a i rest] show ?case
    by (simp add: p t replicate_append_same)
qed

text \<open>
  C6, as the code has it. A batch is flushed and the controller fails \<open>k\<close> times in a row
  (\<open>rounds\<close> has one element per failure: the samples that arrive during the wait, the
  identifiers of the configurations loaded during the wait, and the readings at the retry).
  Then \<open>k + 1\<close> messages were posted, each built from the same in-flight batch: every
  retry has the length of the first message and the same bytes after the 64-byte header,
  which are the entries of the batch. The retries are the first message byte for byte
  when the readings did not change and no other server identifier was loaded. Every
  failure starts the retry timer with 60000 ms and leaves the batch in flight, and the
  success that follows drops the batch without posting again.
\<close>

theorem C6_retry_rounds:
  assumes "inFlightLatencyEntryList s = None"
    and "length (headerTemplate s) = sizeof_Header"
  shows "\<exists>retries.
       posted (fold retryRound rounds (startReportingLatencyData r0 s))
         = posted s @ buildMessage (headerTemplate s) r0 (latencyEntryList s) # retries
     \<and> length retries = length rounds
     \<and> drop sizeof_Header (buildMessage (headerTemplate s) r0 (latencyEntryList s))
         = concat (map entryBytes (latencyEntryList s))
     \<and> (\<forall>msg \<in> set retries.
           drop sizeof_Header msg = concat (map entryBytes (latencyEntryList s))
           \<and> length msg = length (buildMessage (headerTemplate s) r0 (latencyEntryList s)))
     \<and> (headerTemplate (setServerIdentifier identifier s) = headerTemplate s
          \<and> (\<forall>(samples, identifiers, r) \<in> set rounds.
                set identifiers \<subseteq> {identifier} \<and> r = r0)
          \<longrightarrow> retries = replicate (length rounds)
                           (buildMessage (headerTemplate s) r0 (latencyEntryList s)))
     \<and> inFlightLatencyEntryList (fold retryRound rounds (startReportingLatencyData r0 s))
         = Some (latencyEntryList s)
     \<and> (\<forall>x. retryTimer (processRequestFailed x) = Some 60000)
     \<and> (\<exists>finished.
           processResponse True (fold retryRound rounds (startReportingLatencyData r0 s))
             = Inr finished
           \<and> inFlightLatencyEntryList finished = None
           \<and> posted finished = posted (fold retryRound rounds (startReportingLatencyData r0 s)))"
proof -
  let ?s1 = "startReportingLatencyData r0 s"
  let ?b = "latencyEntryList s"
  let ?msg = "buildMessage (headerTemplate s) r0 ?b"
  let ?final = "fold retryRound rounds ?s1"
  have s1: "inFlightLatencyEntryList ?s1 = Some ?b" "posted ?s1 = posted s @ [?msg]"
    "headerTemplate ?s1 = headerTemplate s"
    using assms(1) by (simp_all add: startReportingLatencyData_def sendReport_def)
  have l1: "length (headerTemplate ?s1) = sizeof_Header"
    using assms(2) by (simp add: s1)
  from retryRounds_fold [OF s1(1) l1, of rounds] obtain retries where
    f: "posted ?final = posted ?s1 @ retries" "length retries = length rounds"
      "\<forall>msg \<in> set retries. drop sizeof_Header msg = concat (map entryBytes ?b)
           \<and> length msg = 64 + 12 * length ?b"
      "inFlightLatencyEntryList ?final = Some ?b"
    by blast
  have first: "drop sizeof_Header ?msg = concat (map entryBytes ?b)"
    "length ?msg = 64 + 12 * length ?b"
    using assms(2) by (simp_all add: drop_buildMessage length_buildMessage)
  have same: "retries = replicate (length rounds) ?msg"
    if "headerTemplate (setServerIdentifier identifier s) = headerTemplate s
        \<and> (\<forall>(samples, identifiers, r) \<in> set rounds.
              set identifiers \<subseteq> {identifier} \<and> r = r0)"
  proof -
    have "headerTemplate (setServerIdentifier identifier ?s1) = headerTemplate ?s1"
      using setServerIdentifier_same_template [OF s1(3), of "identifier"] that s1(3) by simp
    from retryRounds_same [OF s1(1) this, of rounds r0] that
    have "posted ?final = posted ?s1 @ replicate (length rounds) ?msg"
      by (simp add: s1)
    with f(1) show ?thesis by simp
  qed
  have timer: "retryTimer (processRequestFailed x) = Some 60000" for x
    by (simp add: processRequestFailed_def triggerRetry_def retryDelaySeconds_def)
  have fin: "\<exists>finished. processResponse True ?final = Inr finished
           \<and> inFlightLatencyEntryList finished = None \<and> posted finished = posted ?final"
    using f(4) by (simp add: processResponse_def Let_def triggerReporting_def)
  have p: "posted ?final = posted s @ ?msg # retries"
    using f(1) by (simp add: s1)
  show ?thesis
    using p f(2,3,4) first same timer fin
    by (intro exI [of _ retries] conjI) simp_all
qed

theorem C6_retry_rounds_witness:
  "posted (fold retryRound [([], [], idle), ([(2, 1609484460, 9)], [[65]], idle)]
       (startReportingLatencyData idle
          (recordLatency 1 1609484400 5 (setServerIdentifier [65] configure))))
     = [buildMessage (headerTemplate (setServerIdentifier [65] configure)) idle
          [newLatencyEntry 1 1609484400 5],
        buildMessage (headerTemplate (setServerIdentifier [65] configure)) idle
          [newLatencyEntry 1 1609484400 5],
        buildMessage (headerTemplate (setServerIdentifier [65] configure)) idle
          [newLatencyEntry 1 1609484400 5]]"
proof -
  let ?c = "setServerIdentifier [65] configure"
  let ?s = "recordLatency 1 1609484400 5 ?c"
  have lc: "length (headerTemplate configure) = sizeof_Header"
    by (simp add: configure_template header_sizes)
  have a: "inFlightLatencyEntryList ?s = None"
    by (simp add: recordLatency_fields setServerIdentifier_fields configure_def)
  have b: "length (headerTemplate ?s) = sizeof_Header"
    by (simp add: recordLatency_fields setServerIdentifier_length [OF lc])
  have c: "posted ?s = []" "headerTemplate ?s = headerTemplate ?c"
    "latencyEntryList ?s = [newLatencyEntry 1 1609484400 5]"
    by (simp_all add: recordLatency_fields recordLatency_list setServerIdentifier_fields
        configure_def)
  have d: "headerTemplate (setServerIdentifier [65] ?s) = headerTemplate ?s"
    using setServerIdentifier_same_template [OF c(2), of "[65]"]
    by (simp add: c(2) setServerIdentifier_again [OF lc])
  from C6_retry_rounds [OF a b, of "[([], [], idle), ([(2, 1609484460, 9)], [[65]], idle)]"
      idle "[65]"] d
  show ?thesis
    by (auto simp: c)
qed

text \<open>
  C6 as stated fails on "the same bytes": the header is rebuilt at every transmission. A
  retry made under a different CPU loading posts a different message, and so does a retry
  made after the configuration was loaded again with another server identifier.
\<close>

theorem C6_same_bytes_counterexample:
  "posted (retryRound ([], [], busy) waiting)
     = [buildMessage (headerTemplate configure) idle [newLatencyEntry 1 1609484400 5],
        buildMessage (headerTemplate configure) busy [newLatencyEntry 1 1609484400 5]]
   \<and> buildMessage (headerTemplate configure) idle [newLatencyEntry 1 1609484400 5]
       \<noteq> buildMessage (headerTemplate configure) busy [newLatencyEntry 1 1609484400 5]
   \<and> posted (retryRound ([], [[65]], idle) waiting)
     = [buildMessage (headerTemplate configure) idle [newLatencyEntry 1 1609484400 5],
        buildMessage (headerTemplate (setServerIdentifier [65] configure)) idle
          [newLatencyEntry 1 1609484400 5]]
   \<and> buildMessage (headerTemplate configure) idle [newLatencyEntry 1 1609484400 5]
       \<noteq> buildMessage (headerTemplate (setServerIdentifier [65] configure)) idle
            [newLatencyEntry 1 1609484400 5]"
proof -
  let ?e = "[newLatencyEntry 1 1609484400 5]"
  have w: "inFlightLatencyEntryList waiting = Some ?e"
    "posted waiting = [buildMessage (headerTemplate configure) idle ?e]"
    "headerTemplate waiting = headerTemplate configure"
    by (simp_all add: waiting_eq)
  have l: "length (headerTemplate configure) = sizeof_Header"
    by (simp add: configure_template header_sizes)
  have l': "length (headerTemplate (setServerIdentifier [65] configure)) = sizeof_Header"
    using l by (rule setServerIdentifier_length)
  have sent: "posted (retryRound ([], [], busy) waiting)
     = [buildMessage (headerTemplate configure) idle ?e,
        buildMessage (headerTemplate configure) busy ?e]"
    unfolding retryRound_eq(1) [OF w(1)] by (simp add: w)
  have sent': "posted (retryRound ([], [[65]], idle) waiting)
     = [buildMessage (headerTemplate configure) idle ?e,
        buildMessage (headerTemplate (setServerIdentifier [65] configure)) idle ?e]"
    unfolding retryRound_eq(1) [OF w(1)]
    using setServerIdentifier_same_template [OF w(3), of "[65]"]
    by (simp add: w)
  have differ: "le16 (cpuLoading idle) \<noteq> le16 (cpuLoading busy)"
    by (simp add: le16_def idle_def busy_def)
  have same: "monitorsPerSecond idle = monitorsPerSecond busy"
    by (simp add: idle_def busy_def)
  have d1: "buildMessage (headerTemplate configure) idle ?e
       \<noteq> buildMessage (headerTemplate configure) busy ?e"
    unfolding buildMessage_layout [OF l] same using differ by simp
  have r48: "replicate 48 (0::u8) = 0 # replicate 47 0"
    using replicate_Suc [of 47 "0::u8"] by simp
  have t: "take 50 (headerTemplate configure)
      \<noteq> take 50 (headerTemplate (setServerIdentifier [65] configure))"
    unfolding setServerIdentifier_template [OF l] configure_template
    by (simp add: le16_def r48)
  have d2: "buildMessage (headerTemplate configure) idle ?e
       \<noteq> buildMessage (headerTemplate (setServerIdentifier [65] configure)) idle ?e"
    unfolding buildMessage_layout [OF l] buildMessage_layout [OF l']
    using t l l' by (simp add: header_sizes)
  show ?thesis
    using sent sent' d1 d2 by simp
qed

subsection \<open>Keyword checks\<close>

lemma allKeywordsLoop_eq:
  "allKeywordsLoop receivedData ks h
     = (list_all (byteArrayContains receivedData) ks,
        find (\<lambda>keyword. \<not> byteArrayContains receivedData keyword) ks,
        h @ concat (takeWhile (byteArrayContains receivedData) ks))"
  by (induction ks arbitrary: h) auto

text \<open>
  C4, as the code has it. For a monitor with a non-empty keyword list, the hash state
  starts from the four little-endian bytes of the monitor id followed by the body; the
  keywords are scanned in order and the scan stops at the first keyword that is not in the
  body, so the keywords folded into the state are those before the first missing one.
  A \<open>KEYWORDS\<close> event is reported exactly when some keyword is missing and the new hash
  differs from the stored one; its message is \<open>Missing keyword "kw"\<close> with the first
  missing keyword decoded from UTF-8; and the new hash is stored in every case.
\<close>

theorem C4_all_keywords:
  assumes "currentKeywords m \<noteq> []"
  shows "checkAllKeywordMatch hashOf decode now m receivedData
     = (let state = le32 (currentMonitorId m) @ receivedData
                    @ concat (takeWhile (byteArrayContains receivedData) (currentKeywords m));
            thisHash = hashOf state
        in (m\<lparr>lastHash := thisHash\<rparr>,
            case find (\<lambda>keyword. \<not> byteArrayContains receivedData keyword) (currentKeywords m) of
              None \<Rightarrow> []
            | Some missing \<Rightarrow>
                if lastHash m \<noteq> thisHash
                then [\<lparr>eventMonitorId = currentMonitorId m, eventTimestamp = now,
                       eventType = KEYWORDS, eventMonitorStatus = currentMonitorStatus m,
                       eventHash = thisHash,
                       eventMessage = ''Missing keyword '' @ [doubleQuote] @ decode missing
                                      @ [doubleQuote]\<rparr>]
                else []))"
proof -
  have none: "list_all P ks" if "find (\<lambda>k. \<not> P k) ks = None" for P and ks :: "bytes list"
    using that by (induction ks) (auto split: if_splits)
  have some: "\<not> list_all P ks" if "find (\<lambda>k. \<not> P k) ks = Some k" for P k and ks :: "bytes list"
    using that by (induction ks) (auto split: if_splits)
  show ?thesis
    using assms
    by (auto simp: checkAllKeywordMatch_def allKeywordsLoop_eq Let_def
        split: option.splits dest: none some)
qed

text \<open>The theorem at keywords \<open>"b"\<close>, \<open>"a"\<close> and body \<open>"a"\<close>, the hash being the identity.\<close>

theorem C4_all_keywords_witness:
  "checkAllKeywordMatch (\<lambda>state. state) (\<lambda>keyword. ''b'') 7 keywordMonitor [97]
     = (keywordMonitor\<lparr>lastHash := le32 1 @ [97]\<rparr>,
        [\<lparr>eventMonitorId = 1, eventTimestamp = 7, eventType = KEYWORDS,
          eventMonitorStatus = UNKNOWN, eventHash = le32 1 @ [97],
          eventMessage = ''Missing keyword '' @ [doubleQuote] @ ''b'' @ [doubleQuote]\<rparr>])"
proof -
  have "currentKeywords keywordMonitor \<noteq> []"
    by (simp add: keywordMonitor_def newMonitor_def)
  from C4_all_keywords [OF this, of "\<lambda>state. state" "\<lambda>keyword. ''b''" 7 "[97]"]
  show ?thesis
    by (simp add: keywordMonitor_def newMonitor_def le32_def Let_def)
qed

text \<open>
  C4 as stated fails on "every keyword found in the body is folded": with keywords
  \<open>"b"\<close>, \<open>"a"\<close> and body \<open>"a"\<close> the keyword \<open>"a"\<close> is in the body, but the scan stops at
  \<open>"b"\<close> and the hash state is the id and the body alone.
\<close>

theorem C4_every_found_keyword_counterexample:
  "currentKeywords keywordMonitor = [[98], [97]]
   \<and> byteArrayContains [97] [97]
   \<and> lastHash (fst (checkAllKeywordMatch (\<lambda>state. state) (\<lambda>keyword. ''b'') 7
                      keywordMonitor [97]))
       = le32 1 @ [97]
   \<and> spec_all_keywords_state 1 [97] [[98], [97]] = le32 1 @ [97, 97]"
  by (simp add: checkAllKeywordMatch_def keywordMonitor_def newMonitor_def Let_def
      spec_all_keywords_state_def)


subsection \<open>The host/scheme and its monitors\<close>


text \<open>
  C1 against the code. \<open>serviceNextMonitor\<close> has no test for an empty hash: with no
  monitor it reseats \<open>monitorIterator\<close> to \<open>begin()\<close>, which is \<open>end()\<close>, and reads
  \<open>monitorIterator.value()\<close> there. The call is a fault for every host/scheme whose hash
  is empty; it does not return.
\<close>

theorem C1_empty_map_faults:
  assumes "monitorsByMonitorId (hostScheme w) = []"
  shows "serviceNextMonitor now w
           = Inl (if monitorIterator (hostScheme w) = None then DerefEnd else BadPointer)"
  using assms by (auto simp: serviceNextMonitor_def Let_def beginOf_def split: option.splits)

text \<open>The theorem at a host/scheme that was created with no monitor.\<close>

theorem C1_empty_map_faults_witness:
  "monitorsByMonitorId (hostScheme emptyWorld) = []
   \<and> serviceNextMonitor 0 emptyWorld = Inl DerefEnd"
proof -
  have e: "monitorsByMonitorId (hostScheme emptyWorld) = []"
    by (simp add: emptyWorld_def newWorld_def newHostScheme_def)
  from C1_empty_map_faults [OF e, of 0] show ?thesis
    by (simp add: e emptyWorld_def newWorld_def newHostScheme_def)
qed


lemma monitorStartCheck_returns:
  assumes "p < length (monitorObjects w)"
  shows "\<exists>w'. monitorStartCheck now p w = Inr w'
           \<and> hostScheme w' = hostScheme w
           \<and> reportedEvents w' = reportedEvents w
           \<and> length (monitorObjects w') = length (monitorObjects w)
           \<and> (\<forall>q. q \<noteq> p \<longrightarrow> monitorObjects w' ! q = monitorObjects w ! q)
           \<and> (\<forall>q. currentMonitorStatus (monitorObjects w' ! q)
                    = currentMonitorStatus (monitorObjects w ! q))"
proof (cases "pendingReply (monitorObjects w ! p) = None \<and> \<not> customerPaused w")
  case True
  then show ?thesis
    using assms by (auto simp: monitorStartCheck_def startCheck_def nth_list_update)
next
  case False
  then show ?thesis
    using assms by (auto simp: monitorStartCheck_def startCheck_def nth_list_update)
qed

lemma beginOf_mem: "beginOf xs = Some x \<Longrightarrow> x \<in> set xs"
  by (cases xs) (auto simp: beginOf_def)

lemma beginOf_None: "beginOf xs = None \<longleftrightarrow> xs = []"
  by (cases xs) (auto simp: beginOf_def)

lemma nextOf_mem: "nextOf xs x = Some y \<Longrightarrow> y \<in> set xs"
  by (induction xs) (auto split: if_splits dest: beginOf_mem)

lemma nextOf_distinct: "distinct xs \<Longrightarrow> nextOf xs x = Some y \<Longrightarrow> y \<noteq> x"
  by (induction xs) (auto split: if_splits dest: beginOf_mem nextOf_mem)

lemma monitorNowResponsive_returns:
  assumes wf: "wellFormed w" and ptr: "this < length (monitorObjects w)"
  shows "\<exists>w'. monitorNowResponsive now this w = Inr w'
           \<and> nonResponsiveMonitors (hostScheme w')
               = removeAll this (nonResponsiveMonitors (hostScheme w))
           \<and> monitorsByMonitorId (hostScheme w') = monitorsByMonitorId (hostScheme w)
           \<and> reportedEvents w' = reportedEvents w
           \<and> length (monitorObjects w') = length (monitorObjects w)
           \<and> monitorObjects w' ! this = monitorObjects w ! this
           \<and> (\<forall>q. currentMonitorStatus (monitorObjects w' ! q)
                    = currentMonitorStatus (monitorObjects w ! q))
           \<and> wellFormed w'"
proof -
  let ?hs = "hostScheme w"
  let ?S = "nonResponsiveMonitors ?hs"
  let ?E = "removeAll this ?S"
  have dist: "distinct ?S" and valid: "\<forall>p \<in> set ?S. p < length (monitorObjects w)"
    using wf by (simp_all add: wellFormed_def list_all_iff)
  define it1 where "it1 =
    (if nonResponsiveMonitorsIterator ?hs = Some this
     then (if nextOf ?S this = None \<and> ?E \<noteq> [] then beginOf ?E else nextOf ?S this)
     else nonResponsiveMonitorsIterator ?hs)"
  define hs1 where "hs1 = ?hs\<lparr>nonResponsiveMonitors := ?E, nonResponsiveMonitorsIterator := it1\<rparr>"
  have it1_ok: "case it1 of None \<Rightarrow> ?E = [] | Some x \<Rightarrow> x \<in> set ?E"
  proof (cases "nonResponsiveMonitorsIterator ?hs = Some this")
    case True
    show ?thesis
    proof (cases "nextOf ?S this")
      case None
      then show ?thesis
        using True by (auto simp: it1_def beginOf_None split: option.splits dest: beginOf_mem)
    next
      case (Some y)
      then have "y \<in> set ?S" "y \<noteq> this"
        using nextOf_mem nextOf_distinct [OF dist] by fastforce+
      then show ?thesis using True Some by (simp add: it1_def)
    qed
  next
    case False
    then show ?thesis
      using wf by (auto simp: it1_def wellFormed_def split: option.splits)
  qed
  show ?thesis
  proof (cases "?E = []")
    case True
    then have "it1 = None" using it1_ok by (auto split: option.splits)
    then have run: "monitorNowResponsive now this w
        = Inr (w\<lparr>hostScheme := ?hs\<lparr>nonResponsiveMonitors := ?E,
                                     nonResponsiveMonitorsIterator := None\<rparr>\<rparr>)"
      using True
      by (auto simp: monitorNowResponsive_def Let_def it1_def split: if_splits)
    show ?thesis
      unfolding run using True by (simp add: wellFormed_def)
  next
    case False
    then obtain n rest where E: "?E = n # rest" by (cases ?E) auto
    have "n \<in> set ?E" by (simp add: E)
    then have n: "n \<in> set ?S" "n \<noteq> this"
      by simp_all
    obtain x where x: "it1 = Some x" "x \<in> set ?E"
      using it1_ok False by (auto split: option.splits)
    define it3 where "it3 = (if nextOf ?E x = None then beginOf ?E else nextOf ?E x)"
    let ?w1 = "w\<lparr>hostScheme := hs1\<lparr>nonResponsiveMonitorsIterator := it3\<rparr>\<rparr>"
    have run: "monitorNowResponsive now this w = monitorStartCheck now n ?w1"
      using False x(1) E
      by (auto simp: monitorNowResponsive_def Let_def it1_def hs1_def it3_def beginOf_def
          split: if_splits)
    have "n < length (monitorObjects ?w1)" using n(1) valid by simp
    from monitorStartCheck_returns [OF this, of now]
    obtain w' where w': "monitorStartCheck now n ?w1 = Inr w'"
      "hostScheme w' = hostScheme ?w1" "reportedEvents w' = reportedEvents ?w1"
      "length (monitorObjects w') = length (monitorObjects ?w1)"
      "\<forall>q. q \<noteq> n \<longrightarrow> monitorObjects w' ! q = monitorObjects ?w1 ! q"
      "\<forall>q. currentMonitorStatus (monitorObjects w' ! q)
           = currentMonitorStatus (monitorObjects ?w1 ! q)"
      by blast
    have it3_ok: "\<exists>y. it3 = Some y \<and> y \<in> set ?E"
    proof (cases "nextOf ?E x")
      case None
      then have "it3 = Some n" by (simp add: it3_def E beginOf_def)
      then show ?thesis by (simp add: E)
    next
      case (Some y)
      then have "it3 = Some y" by (simp add: it3_def)
      then show ?thesis using nextOf_mem [OF Some] by simp
    qed
    have wf': "wellFormed w'"
      using it3_ok dist valid w'(2,4)
      by (auto simp: wellFormed_def hs1_def list_all_iff distinct_removeAll)
    show ?thesis
      unfolding run using w' n(2) wf' by (simp add: hs1_def)
  qed
qed


lemma wellFormed_reportEvent: "wellFormed (reportEvent e w) = wellFormed w"
  by (simp add: wellFormed_def reportEvent_def cong: option.case_cong)

lemma reportRecovery_returns:
  assumes wf: "wellFormed w" and ptr: "this < length (monitorObjects w)"
  shows "\<exists>w1. reportRecovery now this w = Inr w1
           \<and> nonResponsiveMonitors (hostScheme w1)
               = (if currentMonitorStatus (monitorObjects w ! this) \<noteq> WORKING
                  then removeAll this (nonResponsiveMonitors (hostScheme w))
                  else nonResponsiveMonitors (hostScheme w))
           \<and> monitorsByMonitorId (hostScheme w1) = monitorsByMonitorId (hostScheme w)
           \<and> reportedEvents w1
               = reportedEvents w
                 @ (if currentMonitorStatus (monitorObjects w ! this) \<noteq> WORKING
                    then [\<lparr>eventMonitorId = currentMonitorId (monitorObjects w ! this),
                           eventTimestamp = now, eventType = WORKING_EVENT,
                           eventMonitorStatus = currentMonitorStatus (monitorObjects w ! this),
                           eventHash = [], eventMessage = []\<rparr>]
                    else [])
           \<and> length (monitorObjects w1) = length (monitorObjects w)
           \<and> monitorObjects w1 ! this = monitorObjects w ! this
           \<and> (\<forall>q. currentMonitorStatus (monitorObjects w1 ! q)
                    = currentMonitorStatus (monitorObjects w ! q))
           \<and> wellFormed w1"
proof (cases "currentMonitorStatus (monitorObjects w ! this) \<noteq> WORKING")
  case True
  from monitorNowResponsive_returns [OF wf ptr, of now]
  obtain w' where w': "monitorNowResponsive now this w = Inr w'"
    "nonResponsiveMonitors (hostScheme w') = removeAll this (nonResponsiveMonitors (hostScheme w))"
    "monitorsByMonitorId (hostScheme w') = monitorsByMonitorId (hostScheme w)"
    "reportedEvents w' = reportedEvents w"
    "length (monitorObjects w') = length (monitorObjects w)"
    "monitorObjects w' ! this = monitorObjects w ! this"
    "\<forall>q. currentMonitorStatus (monitorObjects w' ! q) = currentMonitorStatus (monitorObjects w ! q)"
    "wellFormed w'"
    by blast
  show ?thesis
    using True w' wellFormed_reportEvent [of _ w']
    by (simp add: reportRecovery_def) (simp add: reportEvent_def)
next
  case False
  then show ?thesis
    using wf by (simp add: reportRecovery_def)
qed

lemma contentCheck_empty_keywords:
  assumes "currentContentCheckMode m = ANY_KEYWORDS \<or> currentContentCheckMode m = ALL_KEYWORDS"
    and "currentKeywords m = []"
  shows "contentCheck lib now m receivedData = (m, [])"
  using assms
  by (auto simp: contentCheck_def checkAnyKeywordMatch_def checkAllKeywordMatch_def)

text \<open>
  C10. In a well-formed world, for a monitor whose mode is \<open>ANY_KEYWORDS\<close> or
  \<open>ALL_KEYWORDS\<close> and whose keyword list is empty, and for every body, elapsed time and
  certificate, \<open>processValidResponse\<close> returns, the stored hash of the monitor is what it
  was, and the only event that can be reported is the \<open>WORKING\<close> event of a recovery: no
  \<open>KEYWORDS\<close> event.
\<close>

theorem C10_empty_keyword_list:
  assumes "wellFormed w" and "this < length (monitorObjects w)"
    and "currentContentCheckMode (monitorObjects w ! this) = ANY_KEYWORDS
         \<or> currentContentCheckMode (monitorObjects w ! this) = ALL_KEYWORDS"
    and "currentKeywords (monitorObjects w ! this) = []"
  shows "\<exists>w'. processValidResponse lib now elapsed receivedData certificateExpiry this w = Inr w'
           \<and> lastHash (monitorObjects w' ! this) = lastHash (monitorObjects w ! this)
           \<and> reportedEvents w'
               = reportedEvents w
                 @ (if currentMonitorStatus (monitorObjects w ! this) \<noteq> WORKING
                    then [\<lparr>eventMonitorId = currentMonitorId (monitorObjects w ! this),
                           eventTimestamp = now, eventType = WORKING_EVENT,
                           eventMonitorStatus = currentMonitorStatus (monitorObjects w ! this),
                           eventHash = [], eventMessage = []\<rparr>]
                    else [])"
proof -
  let ?recovery = "if currentMonitorStatus (monitorObjects w ! this) \<noteq> WORKING
                    then [\<lparr>eventMonitorId = currentMonitorId (monitorObjects w ! this),
                           eventTimestamp = now, eventType = WORKING_EVENT,
                           eventMonitorStatus = currentMonitorStatus (monitorObjects w ! this),
                           eventHash = [], eventMessage = []\<rparr>]
                    else []"
  from reportRecovery_returns [OF assms(1,2), of now]
  obtain w1 where w1: "reportRecovery now this w = Inr w1"
    "reportedEvents w1 = reportedEvents w @ ?recovery"
    "length (monitorObjects w1) = length (monitorObjects w)"
    "monitorObjects w1 ! this = monitorObjects w ! this"
    by blast
  define m1 where "m1 = (monitorObjects w ! this)\<lparr>currentMonitorStatus := WORKING\<rparr>"
  have mode: "currentContentCheckMode m1 = ANY_KEYWORDS \<or> currentContentCheckMode m1 = ALL_KEYWORDS"
    and kw: "currentKeywords m1 = []"
    using assms(3,4) by (simp_all add: m1_def)
  have check: "(if currentContentCheckMode m1 \<noteq> NO_CHECK
                then contentCheck lib now m1 receivedData else (m1, [])) = (m1, [])"
    using contentCheck_empty_keywords [OF mode kw] by simp
  show ?thesis
    using assms(2) w1
    by (simp add: processValidResponse_def Let_def m1_def [symmetric] check
        split: option.splits) (simp add: m1_def)
qed


text \<open>
  The three other operations of C3 keep the invariant: adding a monitor that is not
  \<open>WORKING\<close> (a new monitor is \<open>UNKNOWN\<close>), a transport error, and a transport success.
\<close>

lemma hashInsert_set: "set (hashInsert k v xs) \<subseteq> insert (k, v) (set xs)"
  by (induction xs) auto

lemma addMonitor_suspectInvariant:
  assumes inv: "suspectInvariant w" and fresh: "currentMonitorStatus m \<noteq> WORKING"
  shows "\<exists>w'. addMonitor m w = Inr w' \<and> suspectInvariant w'"
proof -
  let ?n = "length (monitorObjects w)"
  let ?map = "hashInsert (currentMonitorId m) ?n (monitorsByMonitorId (hostScheme w))"
  let ?set = "setInsert ?n (nonResponsiveMonitors (hostScheme w))"
  have old: "p < ?n \<and> ((p \<in> set (nonResponsiveMonitors (hostScheme w)))
               = (currentMonitorStatus (monitorObjects w ! p) \<noteq> WORKING))"
    if "(k, p) \<in> set (monitorsByMonitorId (hostScheme w))" for k p
    using inv that by (auto simp: suspectInvariant_def list_all_iff)
  have new: "p < Suc ?n \<and> ((p \<in> set ?set)
               = (currentMonitorStatus ((monitorObjects w @ [m]) ! p) \<noteq> WORKING))"
    if "(k, p) \<in> set ?map" for k p
  proof (cases "p = ?n")
    case True
    then show ?thesis using fresh by (simp add: setInsert_def)
  next
    case False
    then have "(k, p) \<in> set (monitorsByMonitorId (hostScheme w))"
      using that hashInsert_set by fastforce
    from old [OF this] show ?thesis
      by (auto simp: setInsert_def nth_append)
  qed
  show ?thesis
    using new
    by (auto simp: addMonitor_def monitorAdded_def Let_def suspectInvariant_def list_all_iff)
qed

lemma processErrorResponse_suspectInvariant:
  assumes inv: "suspectInvariant w" and ptr: "this < length (monitorObjects w)"
  shows "\<exists>w'. processErrorResponse now errorMessage this w = Inr w' \<and> suspectInvariant w'"
proof (cases "currentMonitorStatus (monitorObjects w ! this) \<noteq> FAILED")
  case True
  have old: "p < length (monitorObjects w) \<and> ((p \<in> set (nonResponsiveMonitors (hostScheme w)))
               = (currentMonitorStatus (monitorObjects w ! p) \<noteq> WORKING))"
    if "(k, p) \<in> set (monitorsByMonitorId (hostScheme w))" for k p
    using inv that by (auto simp: suspectInvariant_def list_all_iff)
  show ?thesis
    using True ptr old
    by (auto simp: processErrorResponse_def Let_def monitorNonResponsive_def reportEvent_def
        suspectInvariant_def list_all_iff setInsert_def nth_list_update)
next
  case False
  then show ?thesis
    using inv ptr by (simp add: processErrorResponse_def Let_def)
qed

lemma contentCheck_status:
  "currentMonitorStatus (fst (contentCheck lib now m receivedData)) = currentMonitorStatus m"
  by (auto simp: contentCheck_def checkContentChange_def checkAnyKeywordMatch_def
      checkAllKeywordMatch_def checkContentChangeSmart_def Let_def split: prod.splits)

lemma processValidResponse_suspectInvariant:
  assumes inv: "suspectInvariant w" and wf: "wellFormed w"
    and ptr: "this < length (monitorObjects w)"
  shows "\<exists>w'. processValidResponse lib now elapsed receivedData certificateExpiry this w = Inr w'
           \<and> suspectInvariant w'"
proof -
  from reportRecovery_returns [OF wf ptr, of now]
  obtain w1 where w1: "reportRecovery now this w = Inr w1"
    "nonResponsiveMonitors (hostScheme w1)
       = (if currentMonitorStatus (monitorObjects w ! this) \<noteq> WORKING
          then removeAll this (nonResponsiveMonitors (hostScheme w))
          else nonResponsiveMonitors (hostScheme w))"
    "monitorsByMonitorId (hostScheme w1) = monitorsByMonitorId (hostScheme w)"
    "length (monitorObjects w1) = length (monitorObjects w)"
    "\<forall>q. currentMonitorStatus (monitorObjects w1 ! q)
         = currentMonitorStatus (monitorObjects w ! q)"
    by blast
  define m1 where "m1 = (monitorObjects w1 ! this)\<lparr>currentMonitorStatus := WORKING\<rparr>"
  define m2 where "m2 = fst (if currentContentCheckMode m1 \<noteq> NO_CHECK
                             then contentCheck lib now m1 receivedData else (m1, []))"
  have m2: "currentMonitorStatus m2 = WORKING"
    by (simp add: m2_def contentCheck_status) (simp add: m1_def)
  have old: "p < length (monitorObjects w) \<and> ((p \<in> set (nonResponsiveMonitors (hostScheme w)))
               = (currentMonitorStatus (monitorObjects w ! p) \<noteq> WORKING))"
    if "(k, p) \<in> set (monitorsByMonitorId (hostScheme w))" for k p
    using inv that by (auto simp: suspectInvariant_def list_all_iff)
  have new: "p < length (monitorObjects w)
       \<and> ((p \<in> set (nonResponsiveMonitors (hostScheme w1)))
            = (currentMonitorStatus ((monitorObjects w1)[this := m2] ! p) \<noteq> WORKING))"
    if "(k, p) \<in> set (monitorsByMonitorId (hostScheme w))" for k p
    using old [OF that] w1(2,4,5) m2 ptr
    by (cases "p = this") (auto simp: nth_list_update)
  have "suspectInvariant w'"
    if "monitorObjects w' = (monitorObjects w1)[this := m2]"
      "nonResponsiveMonitors (hostScheme w') = nonResponsiveMonitors (hostScheme w1)"
      "monitorsByMonitorId (hostScheme w') = monitorsByMonitorId (hostScheme w)" for w'
    using new that w1(4) by (auto simp: suspectInvariant_def list_all_iff)
  then show ?thesis
    using ptr w1(1,3)
    by (auto simp: processValidResponse_def Let_def m1_def [symmetric] m2_def
        split: option.splits prod.splits)
qed


text \<open>
  Well-formedness is kept by the operations: it holds for a new host/scheme and is
  preserved by adding a monitor, by a tick, and by both kinds of reply.
\<close>

lemma addMonitor_returns: "\<exists>w'. addMonitor m w = Inr w'"
  by (simp add: addMonitor_def monitorAdded_def Let_def)

lemma wellFormed_hostScheme_cong:
  "nonResponsiveMonitors (hostScheme w') = nonResponsiveMonitors (hostScheme w) \<Longrightarrow>
   nonResponsiveMonitorsIterator (hostScheme w') = nonResponsiveMonitorsIterator (hostScheme w) \<Longrightarrow>
   length (monitorObjects w') = length (monitorObjects w) \<Longrightarrow>
   wellFormed w' = wellFormed w"
  by (simp add: wellFormed_def cong: option.case_cong)

lemma addMonitor_wellFormed:
  assumes "wellFormed w" and "addMonitor m w = Inr w'"
  shows "wellFormed w'"
proof -
  let ?n = "length (monitorObjects w)"
  let ?S = "nonResponsiveMonitors (hostScheme w)"
  have fresh: "?n \<notin> set ?S"
    using assms(1) by (auto simp: wellFormed_def list_all_iff)
  have S: "nonResponsiveMonitors (hostScheme w') = ?S @ [?n]"
    and I: "nonResponsiveMonitorsIterator (hostScheme w')
            = (if ?S = [] then Some ?n else nonResponsiveMonitorsIterator (hostScheme w))"
    and L: "length (monitorObjects w') = Suc ?n"
    using assms(2) fresh
    by (auto simp: addMonitor_def monitorAdded_def Let_def setInsert_def beginOf_def)
  show ?thesis
    using assms(1) fresh
    by (auto simp: wellFormed_def S I L list_all_iff less_Suc_eq split: option.splits)
qed

lemma processErrorResponse_wellFormed:
  assumes "wellFormed w" and "this < length (monitorObjects w)"
    and "processErrorResponse now errorMessage this w = Inr w'"
  shows "wellFormed w'"
  using assms
  by (auto simp: processErrorResponse_def Let_def monitorNonResponsive_def reportEvent_def
      wellFormed_def setInsert_def beginOf_def list_all_iff
      split: if_splits option.splits list.splits)

lemma monitorStartCheck_wellFormed:
  assumes "wellFormed w" and "monitorStartCheck now p w = Inr w'"
  shows "wellFormed w'"
proof -
  have "hostScheme w' = hostScheme w \<and> length (monitorObjects w') = length (monitorObjects w)"
    using assms(2)
    by (auto simp: monitorStartCheck_def startCheck_def split: if_splits)
  then show ?thesis
    using assms(1) wellFormed_hostScheme_cong [of w' w] by simp
qed

lemma serviceNextMonitor_wellFormed:
  assumes wf: "wellFormed w" and run: "serviceNextMonitor now w = Inr w'"
  shows "wellFormed w'"
proof -
  let ?hs = "hostScheme w"
  let ?S = "nonResponsiveMonitors ?hs"
  let ?keys = "map fst (monitorsByMonitorId ?hs)"
  let ?it1 = "if monitorIterator ?hs = None then beginOf ?keys else monitorIterator ?hs"
  obtain key where key: "?it1 = Some key"
    using run by (cases ?it1) (simp_all add: serviceNextMonitor_def Let_def)
  obtain monitor where monitor: "map_of (monitorsByMonitorId ?hs) key = Some monitor"
    using run key
    by (cases "map_of (monitorsByMonitorId ?hs) key") (simp_all add: serviceNextMonitor_def Let_def)
  let ?it3 = "if nextOf ?keys key = None then beginOf ?keys else nextOf ?keys key"
  show ?thesis
  proof (cases "?S = []")
    case True
    let ?w1 = "w\<lparr>hostScheme := ?hs\<lparr>monitorIterator := ?it3\<rparr>\<rparr>"
    have "monitorStartCheck now monitor ?w1 = Inr w'"
      using run key monitor True by (simp add: serviceNextMonitor_def Let_def)
    moreover have "wellFormed ?w1"
      using wf by (simp add: wellFormed_def cong: option.case_cong)
    ultimately show ?thesis by (rule monitorStartCheck_wellFormed [rotated])
  next
    case False
    let ?nit1 = "if nonResponsiveMonitorsIterator ?hs = None then beginOf ?S
                 else nonResponsiveMonitorsIterator ?hs"
    obtain x where x: "?nit1 = Some x"
      using run key monitor False
      by (cases ?nit1) (simp_all add: serviceNextMonitor_def Let_def)
    let ?nit3 = "if nextOf ?S x = None then beginOf ?S else nextOf ?S x"
    let ?w1 = "w\<lparr>hostScheme := ?hs\<lparr>monitorIterator := ?it3,
                                        nonResponsiveMonitorsIterator := ?nit3\<rparr>\<rparr>"
    have chain: "(case monitorStartCheck now monitor ?w1 of
                    Inl f \<Rightarrow> Inl f
                  | Inr w2 \<Rightarrow> if monitor \<noteq> x then monitorStartCheck now x w2 else Inr w2)
                 = Inr w'"
      using run key monitor False x by (simp add: serviceNextMonitor_def Let_def)
    obtain y where y: "?nit3 = Some y" "y \<in> set ?S"
    proof (cases "nextOf ?S x")
      case None
      obtain s rest where "?S = s # rest" using False by (cases ?S) auto
      then show ?thesis using None that [of s] by (simp add: beginOf_def)
    next
      case (Some z)
      then show ?thesis using that [of z] nextOf_mem [OF Some] by simp
    qed
    have w1: "wellFormed ?w1"
      using wf y by (simp add: wellFormed_def)
    obtain w2 where w2: "monitorStartCheck now monitor ?w1 = Inr w2"
      using chain by (cases "monitorStartCheck now monitor ?w1") simp_all
    have wf2: "wellFormed w2"
      using w1 w2 by (rule monitorStartCheck_wellFormed)
    show ?thesis
    proof (cases "monitor \<noteq> x")
      case True
      then have "monitorStartCheck now x w2 = Inr w'"
        using chain w2 by simp
      with wf2 show ?thesis by (rule monitorStartCheck_wellFormed)
    next
      case False
      then have "w' = w2" using chain w2 by simp
      then show ?thesis using wf2 by simp
    qed
  qed
qed


lemma newWorld_wellFormed: "wellFormed (newWorld (newHostScheme hostSchemeId url) latency)"
  by (simp add: wellFormed_def newWorld_def newHostScheme_def)

lemma processValidResponse_wellFormed:
  assumes wf: "wellFormed w" and ptr: "this < length (monitorObjects w)"
    and run: "processValidResponse lib now elapsed receivedData certificateExpiry this w = Inr w'"
  shows "wellFormed w'"
proof -
  from reportRecovery_returns [OF wf ptr, of now]
  obtain w1 where w1: "reportRecovery now this w = Inr w1" "wellFormed w1"
    by blast
  have "nonResponsiveMonitors (hostScheme w') = nonResponsiveMonitors (hostScheme w1)
      \<and> nonResponsiveMonitorsIterator (hostScheme w') = nonResponsiveMonitorsIterator (hostScheme w1)
      \<and> length (monitorObjects w') = length (monitorObjects w1)"
    using run ptr w1(1)
    by (auto simp: processValidResponse_def Let_def split: option.splits prod.splits if_splits)
  then show ?thesis
    using w1(2) wellFormed_hostScheme_cong [of w' w1] by simp
qed

subsection \<open>One monitor through its life\<close>


lemma added_reached: "addMonitor probe emptyWorld = Inr added"
  by (simp add: addMonitor_def monitorAdded_def Let_def emptyWorld_def newWorld_def
      newHostScheme_def probe_def newMonitor_def added_def setInsert_def beginOf_def)

lemma probing_reached: "serviceNextMonitor 100 added = Inr probing"
  by (simp add: serviceNextMonitor_def monitorStartCheck_def startCheck_def Let_def
      added_def probing_def emptyWorld_def newWorld_def newHostScheme_def probe_def
      newMonitor_def beginOf_def)

lemma recovered_reached:
  "responseReceived plainLibrary 101 50000000 (NoError [] None) 0 probing = Inr recovered"
  by (simp add: responseReceived_def processValidResponse_def reportRecovery_def
      monitorNowResponsive_def reportEvent_def contentCheck_def checkAnyKeywordMatch_def
      maximumAllowedLatencyMicroseconds_def transferTimeout_def Let_def
      recovered_def probing_def added_def emptyWorld_def newWorld_def newHostScheme_def
      probe_def newMonitor_def beginOf_def)

lemma probingAgain_reached: "serviceNextMonitor 120 recovered = Inr probingAgain"
  by (simp add: serviceNextMonitor_def monitorStartCheck_def startCheck_def Let_def
      probingAgain_def recovered_def probing_def added_def emptyWorld_def newWorld_def
      newHostScheme_def probe_def newMonitor_def beginOf_def buildRequest_def)


text \<open>
  C2 against the code. For a monitor with a request in flight, \<open>abort\<close> reports no event,
  deletes the reply and sets the status to \<open>UNKNOWN\<close>, but \<open>pendingReply\<close> keeps the address
  of the deleted reply: the slot is not empty, and a later \<open>startCheck\<close> does nothing.
\<close>

theorem C2_abort_keeps_reply_pointer:
  assumes "p < length (monitorObjects w)"
    and "pendingReply (monitorObjects w ! p) = Some reply"
  shows "\<exists>w'. monitorAbort p w = Inr w'
           \<and> reportedEvents w' = reportedEvents w
           \<and> deletedReplies w' = deletedReplies w @ [reply]
           \<and> currentMonitorStatus (monitorObjects w' ! p) = UNKNOWN
           \<and> pendingReply (monitorObjects w' ! p) = Some reply
           \<and> monitorStartCheck now p w' = Inr w'"
  using assms
  by (simp add: monitorAbort_def abort_def monitorStartCheck_def startCheck_def)

text \<open>The theorem at the monitor of \<open>probingAgain\<close>, whose second request is in flight.\<close>

theorem C2_abort_keeps_reply_pointer_witness:
  "\<exists>w'. monitorAbort 0 probingAgain = Inr w'
         \<and> reportedEvents w' = reportedEvents probingAgain
         \<and> deletedReplies w' = [1]
         \<and> currentMonitorStatus (monitorObjects w' ! 0) = UNKNOWN
         \<and> pendingReply (monitorObjects w' ! 0) = Some 1
         \<and> monitorStartCheck 130 0 w' = Inr w'"
proof -
  have a: "0 < length (monitorObjects probingAgain)"
    and b: "pendingReply (monitorObjects probingAgain ! 0) = Some 1"
    and c: "deletedReplies probingAgain = []"
    by (simp_all add: probingAgain_def recovered_def probing_def added_def emptyWorld_def
        newWorld_def)
  from C2_abort_keeps_reply_pointer [OF a b, of 130] show ?thesis
    by (simp add: c)
qed

text \<open>
  C3 against the code. The invariant holds in \<open>probingAgain\<close>, where the monitor is
  \<open>WORKING\<close> and outside the suspect set. \<open>abort\<close> sets its status to \<open>UNKNOWN\<close> and does
  not call \<open>monitorNonResponsive\<close>: afterwards the monitor is not \<open>WORKING\<close> and not in
  the suspect set, and the invariant is broken.
\<close>

theorem C3_abort_breaks_suspect_invariant:
  "suspectInvariant probingAgain
   \<and> (case monitorAbort 0 probingAgain of
         Inl f \<Rightarrow> False
       | Inr w \<Rightarrow> \<not> suspectInvariant w
                  \<and> currentMonitorStatus (monitorObjects w ! 0) = UNKNOWN
                  \<and> nonResponsiveMonitors (hostScheme w) = [])"
  by (simp add: suspectInvariant_def monitorAbort_def abort_def
      probingAgain_def recovered_def probing_def added_def emptyWorld_def newWorld_def
      newHostScheme_def probe_def newMonitor_def)

text \<open>The theorem of C10 at the first reply to the monitor of \<open>probing\<close>.\<close>

theorem C10_empty_keyword_list_witness:
  "\<exists>w'. processValidResponse plainLibrary 101 50000000 [104, 105] None 0 probing = Inr w'
         \<and> lastHash (monitorObjects w' ! 0) = []
         \<and> reportedEvents w'
             = [\<lparr>eventMonitorId = 7, eventTimestamp = 101, eventType = WORKING_EVENT,
                 eventMonitorStatus = UNKNOWN, eventHash = [], eventMessage = []\<rparr>]"
proof -
  have a: "wellFormed probing"
    and b: "0 < length (monitorObjects probing)"
    and c: "currentContentCheckMode (monitorObjects probing ! 0) = ANY_KEYWORDS
            \<or> currentContentCheckMode (monitorObjects probing ! 0) = ALL_KEYWORDS"
    and d: "currentKeywords (monitorObjects probing ! 0) = []"
    by (simp_all add: wellFormed_def probing_def added_def emptyWorld_def newWorld_def
        newHostScheme_def probe_def newMonitor_def)
  from C10_empty_keyword_list [OF a b c d, of plainLibrary 101 50000000 "[104, 105]" None]
  show ?thesis
    by (simp add: probing_def added_def emptyWorld_def newWorld_def probe_def newMonitor_def)
qed

subsection \<open>The control API\<close>

lemma plainToUInt_one: "plainToUInt ''1'' = Some 1"
  by (simp add: plainToUInt_def)

lemma decimalText_one: "decimalText 1 = ''1''"
  by (simp add: decimalText.simps)

lemma plainQt_fields:
  "toUInt plainQt = plainToUInt"
  "urlIsValid plainQt = (\<lambda>url. url \<noteq> [])"
  "trimmedToLower plainQt = (\<lambda>str. str)"
  "decimal plainQt = decimalText"
  by (simp_all add: plainQt_def)

lemma generateMonitor_masked:
  "generateMonitor plainQt \<lparr>success = True, statusString = ''OK''\<rparr> 1
     [(''method'', JString ''get''), (''uri'', JNumber 5)]
   = (Some (newMonitor 1 [] GET NO_CHECK [] TEXT [] []),
      \<lparr>success = True, statusString = ''failed, uri must be a string, monitor 1''\<rparr>)"
  by (simp add: generateMonitor_def plainQt_fields decimalText_one failing_def toMethod_def
      Let_def)

lemma generateHostScheme_masked:
  "generateHostScheme plainQt \<lparr>success = True, statusString = ''OK''\<rparr> 1
     [(''monitors'', JObject [(''1'', maskedMonitor)]), (''url'', JString ''http://example.com'')]
   = (Some (addNewMonitor (newMonitor 1 [] GET NO_CHECK [] TEXT [] [])
              (newWorld (newHostScheme 1 ''http://example.com'') False)),
      \<lparr>success = True, statusString = ''failed, uri must be a string, monitor 1''\<rparr>)"
  by (simp add: generateHostScheme_def maskedMonitor_def generateMonitor_masked
      jsonToString_def Let_def plainQt_fields plainToUInt_one)

lemma generateCustomer_masked:
  "generateCustomer plainQt \<lparr>success = True, statusString = ''OK''\<rparr> 1
     [(''host_schemes'', JObject
          [(''1'', JObject [(''monitors'', JObject [(''1'', maskedMonitor)]),
                           (''url'', JString ''http://example.com'')])]),
      (''polling_interval'', JNumber 20)]
   = (Some installedCustomer,
      \<lparr>success = True, statusString = ''failed, uri must be a string, monitor 1''\<rparr>)"
  by (simp add: generateCustomer_def generateHostScheme_masked jsonToInt_def jsonToBool_def
      Let_def plainQt_fields plainToUInt_one installedCustomer_def)

lemma installed_id: "currentCustomerId installedCustomer = 1"
  by (simp add: installedCustomer_def addHostScheme_def newCustomer_def)

text \<open>
  C9 against the code. The monitor of the request fails validation (\<open>uri\<close> is not a
  string: \<open>success\<close> is set to false and the status string to the failure), but the next
  field is a valid \<open>method\<close> and \<open>toMethod\<close> stores true into \<open>success\<close>. The call is not
  aborted: the response carries the failure message and the customer is installed.
\<close>

theorem C9_masked_validation_failure:
  "processAuthenticatedRequest plainQt length maskedPayload idleTracker
     = Inr (JsonResponse [(''status'', JString ''failed, uri must be a string, monitor 1'')],
            [\<lparr>customersByCustomerId = [(1, installedCustomer)],
              currentHostSchemesPerSecond = 1\<rparr>])"
  by (simp add: processAuthenticatedRequest_def maskedPayload_def generateCustomer_masked
      plainQt_fields plainToUInt_one idleTracker_def addCustomer_def threadAddCustomer_def threadRemoveCustomer_def
      installed_id Let_def)

text \<open>
  What the handler does by design: when \<open>success\<close> is false after the loop, the tracker
  is left as it was; when it is true, every customer that was built is installed, and the
  installation returns on a tracker with at least one worker.
\<close>

lemma map_of_hashInsert: "map_of (hashInsert k v xs) k = Some v"
  by (induction xs) auto

lemma leastLoaded_bound: "best < i \<Longrightarrow> leastLoaded best r i ts < i + length ts"
proof (induction ts arbitrary: best r i)
  case Nil
  then show ?case by simp
next
  case (Cons t ts)
  have a: "leastLoaded i (currentHostSchemesPerSecond t) (i + 1) ts < (i + 1) + length ts"
    by (rule Cons.IH) simp
  have b: "leastLoaded best r (i + 1) ts < (i + 1) + length ts"
    by (rule Cons.IH) (use Cons.prems in simp)
  show ?case using a b by simp
qed

lemma addCustomer_returns:
  assumes "tracker \<noteq> []"
  shows "\<exists>tracker'. addCustomer metrics customer tracker = Inr tracker'
           \<and> length tracker' = length tracker
           \<and> (\<exists>t \<in> set tracker'.
                 map_of (customersByCustomerId t) (currentCustomerId customer) = Some customer)"
proof -
  obtain first others where t: "tracker = first # others"
    using assms by (cases tracker) auto
  define best where "best = leastLoaded 0 (currentHostSchemesPerSecond first) 1 others"
  have b: "best < length tracker"
    using leastLoaded_bound [of 0 1 "currentHostSchemesPerSecond first" others]
    by (simp add: best_def t)
  let ?t = "threadAddCustomer metrics customer (tracker ! best)"
  have run: "addCustomer metrics customer tracker = Inr (tracker[best := ?t])"
    using b by (simp add: addCustomer_def t best_def Let_def)
  have "?t \<in> set (tracker[best := ?t])"
    using b by (simp add: set_update_memI)
  moreover have "map_of (customersByCustomerId ?t) (currentCustomerId customer) = Some customer"
    by (simp add: threadAddCustomer_def Let_def map_of_hashInsert)
  ultimately show ?thesis
    unfolding run by auto
qed

lemma removeCustomer_length: "length (snd (removeCustomer metrics customerId ts)) = length ts"
  by (induction ts) (auto split: prod.splits bool.splits)

lemma installCustomers_returns:
  "tracker \<noteq> [] \<Longrightarrow>
   \<exists>tracker'. installCustomers metrics customers tracker = Inr tracker'
      \<and> length tracker' = length tracker"
proof (induction customers arbitrary: tracker)
  case Nil
  then show ?case by simp
next
  case (Cons customer rest)
  let ?removed = "snd (removeCustomer metrics (currentCustomerId customer) tracker)"
  have "?removed \<noteq> []"
    using Cons.prems removeCustomer_length [of metrics "currentCustomerId customer" tracker]
    by (metis length_0_conv)
  from addCustomer_returns [OF this, of metrics customer]
  obtain tracker1 where t1: "addCustomer metrics customer ?removed = Inr tracker1"
    "length tracker1 = length tracker"
    using removeCustomer_length [of metrics "currentCustomerId customer" tracker] by auto
  then have "tracker1 \<noteq> []" using Cons.prems by auto
  from Cons.IH [OF this] show ?case
    using t1 by simp
qed

lemma request_aborted:
  assumes "customersLoop qt requestObject (\<lparr>success = True, statusString = ''OK''\<rparr>, [])
             = (st, customers)"
    and "\<not> success st"
  shows "processAuthenticatedRequest qt metrics (JObject requestObject) tracker
           = Inr (JsonResponse [(''status'', JString (statusString st))], tracker)"
  using assms by (simp add: processAuthenticatedRequest_def)

lemma request_installed:
  assumes "customersLoop qt requestObject (\<lparr>success = True, statusString = ''OK''\<rparr>, [])
             = (st, customers)"
    and "success st" and "tracker \<noteq> []"
  shows "\<exists>tracker'. installCustomers metrics customers tracker = Inr tracker'
           \<and> processAuthenticatedRequest qt metrics (JObject requestObject) tracker
               = Inr (JsonResponse [(''status'', JString (statusString st))], tracker')"
  using assms installCustomers_returns [OF assms(3), of metrics customers]
  by (auto simp: processAuthenticatedRequest_def)


end
